theory Spec2Isabelle
  imports Complex_Main "HOL-Library.Sublist"
begin

section \<open>Values of the JavaScript runtime\<close>

text \<open>
  A JavaScript string is a sequence of 16-bit code units; a code unit is written here as the
  natural number it denotes.  Literals of the source are written \<open>js ''...''\<close>.
\<close>

type_synonym jsstring = "nat list"

abbreviation js :: "string \<Rightarrow> jsstring" where
  "js s \<equiv> map of_char s"

text \<open>
  A Number is an IEEE double: not-a-number, one of the two infinities, or a finite value,
  read as the real number it denotes (so \<open>-0\<close> is \<open>0\<close>).  Comparison and
  \<open>Math.round\<close> are exact on doubles, so they are the operations on real numbers.
\<close>

datatype jsnum = NaN | Infinity | NegInfinity | Finite real

text \<open>
  The values \<open>JSON.parse\<close> returns, and \<open>undefined\<close> (the value of a
  property that is absent).  An object is its list of own properties.
\<close>

datatype jsval =
    JUndefined
  | JNull
  | JBool bool
  | JNum jsnum
  | JStr jsstring
  | JArr "jsval list"
  | JObj "(jsstring \<times> jsval) list"

datatype error =
    MissingApiKey
  | ModelInvocationFailure
  | ExtractFailed
  | NoJsonFound
  | InvalidJson
  | SafeParseFailed
  | TypeError

text \<open>
  The response of the model is a value of unknown shape, which may hold callables: a
  callable of no argument is what calling and awaiting it gives, \<open>None\<close> when
  it throws or rejects.
\<close>

datatype resp =
    RUndefined
  | RNull
  | RBool bool
  | RNum jsnum
  | RStr jsstring
  | RArr "resp list"
  | RObj "(jsstring \<times> resp) list"
  | RFun "resp option"

datatype stringified = StringifyThrows | StringifyUndefined | Stringified jsstring

text \<open>
  What the program calls from the runtime and does not define itself.  \<open>JSON.parse\<close>
  returns a value or throws (\<open>None\<close>); \<open>StringToNumber\<close> is the conversion
  \<open>Number\<close> applies to a string; \<open>NumberToString\<close> is the conversion
  \<open>String\<close> applies to a finite number.  On a response, \<open>JSON.stringify\<close>
  returns a string or \<open>undefined\<close> or throws, and \<open>String\<close> returns a
  string or throws (\<open>None\<close>).
\<close>

record runtime =
  JSON_parse :: "jsstring \<Rightarrow> jsval option"
  StringToNumber :: "jsstring \<Rightarrow> jsnum"
  NumberToString :: "real \<Rightarrow> jsstring"
  JSON_stringify :: "resp \<Rightarrow> stringified"
  String_of :: "resp \<Rightarrow> jsstring option"

subsection \<open>Truthiness, property reads, nullish coalescing\<close>

fun truthy :: "jsval \<Rightarrow> bool" where
  "truthy JUndefined = False"
| "truthy JNull = False"
| "truthy (JBool b) = b"
| "truthy (JNum NaN) = False"
| "truthy (JNum (Finite r)) = (r \<noteq> 0)"
| "truthy (JNum _) = True"
| "truthy (JStr s) = (s \<noteq> [])"
| "truthy (JArr _) = True"
| "truthy (JObj _) = True"

fun nullish :: "jsval \<Rightarrow> bool" where
  "nullish JUndefined = True"
| "nullish JNull = True"
| "nullish _ = False"

fun isArray :: "jsval \<Rightarrow> bool" where
  "isArray (JArr _) = True"
| "isArray _ = False"

text \<open>
  \<open>v.name\<close>, for the property names this program reads (none of them is defined on
  a prototype): reading a property of \<open>null\<close> or \<open>undefined\<close> throws a
  TypeError, an object gives its own property or \<open>undefined\<close>, every other value
  gives \<open>undefined\<close>.
\<close>

fun get_prop :: "jsval \<Rightarrow> jsstring \<Rightarrow> error + jsval" where
  "get_prop JUndefined k = Inl TypeError"
| "get_prop JNull k = Inl TypeError"
| "get_prop (JObj kvs) k = Inr (case map_of kvs k of None \<Rightarrow> JUndefined | Some v \<Rightarrow> v)"
| "get_prop _ k = Inr JUndefined"

text \<open>
  \<open>v.k1 ?? v.k2 ?? ... ?? d\<close>: the first property of \<open>v\<close> that is neither
  \<open>null\<close> nor \<open>undefined\<close>, else the default.
\<close>

fun coalesce :: "jsval \<Rightarrow> jsstring list \<Rightarrow> jsval \<Rightarrow> error + jsval" where
  "coalesce v [] d = Inr d"
| "coalesce v (k # ks) d =
     (case get_prop v k of
        Inl e \<Rightarrow> Inl e
      | Inr x \<Rightarrow> if nullish x then coalesce v ks d else Inr x)"

subsection \<open>String and Number coercion\<close>

text \<open>
  \<open>String(v)\<close> and \<open>Number(v)\<close> on parsed JSON.  An array is joined with
  commas, \<open>null\<close> and \<open>undefined\<close> elements giving the empty string.  An
  object is converted by its \<open>toString\<close> and \<open>valueOf\<close> methods: a parsed
  object inherits both, the inherited \<open>valueOf\<close> returns the object itself, so the
  result is \<open>[object Object]\<close>, unless the object has an own property
  \<open>toString\<close>, which parsed JSON cannot make callable, and then no method yields a
  primitive and the conversion throws a TypeError.
\<close>

definition has_own :: "(jsstring \<times> jsval) list \<Rightarrow> jsstring \<Rightarrow> bool" where
  "has_own kvs k = (map_of kvs k \<noteq> None)"

fun num_to_string :: "runtime \<Rightarrow> jsnum \<Rightarrow> jsstring" where
  "num_to_string rt NaN = js ''NaN''"
| "num_to_string rt Infinity = js ''Infinity''"
| "num_to_string rt NegInfinity = js ''-Infinity''"
| "num_to_string rt (Finite r) = NumberToString rt r"

fun to_string :: "runtime \<Rightarrow> jsval \<Rightarrow> error + jsstring"
  and join_elems :: "runtime \<Rightarrow> jsval list \<Rightarrow> error + jsstring" where
  "to_string rt JUndefined = Inr (js ''undefined'')"
| "to_string rt JNull = Inr (js ''null'')"
| "to_string rt (JBool b) = Inr (if b then js ''true'' else js ''false'')"
| "to_string rt (JNum n) = Inr (num_to_string rt n)"
| "to_string rt (JStr s) = Inr s"
| "to_string rt (JArr xs) = join_elems rt xs"
| "to_string rt (JObj kvs) =
     (if has_own kvs (js ''toString'') then Inl TypeError else Inr (js ''[object Object]''))"
| "join_elems rt [] = Inr []"
| "join_elems rt (x # xs) =
     (case (if nullish x then Inr [] else to_string rt x) of
        Inl e \<Rightarrow> Inl e
      | Inr s \<Rightarrow>
          if xs = [] then Inr s
          else (case join_elems rt xs of Inl e \<Rightarrow> Inl e | Inr t \<Rightarrow> Inr (s @ js '','' @ t)))"

fun to_number :: "runtime \<Rightarrow> jsval \<Rightarrow> error + jsnum" where
  "to_number rt JUndefined = Inr NaN"
| "to_number rt JNull = Inr (Finite 0)"
| "to_number rt (JBool b) = Inr (Finite (if b then 1 else 0))"
| "to_number rt (JNum n) = Inr n"
| "to_number rt (JStr s) = Inr (StringToNumber rt s)"
| "to_number rt v =
     (case to_string rt v of Inl e \<Rightarrow> Inl e | Inr s \<Rightarrow> Inr (StringToNumber rt s))"

section \<open>The score clamp\<close>

text \<open>
  \<^verbatim>\<open>
  function clampScore(n: any): number {
    const v = Number(n || 0);
    if (isNaN(v)) return 0;
    if (v < 0) return 0;
    if (v > 100) return 100;
    return Math.round(v);
  }
  \<close>
  \<open>Math.round\<close> gives the nearest integer, the upper one of two equally near.  Every
  \<open>return\<close> gives a finite number, which is the result type here.
\<close>

definition Math_round :: "real \<Rightarrow> real" where
  "Math_round v = of_int \<lfloor>v + 1 / 2\<rfloor>"

fun clamp_number :: "jsnum \<Rightarrow> real" where
  "clamp_number NaN = 0"
| "clamp_number NegInfinity = 0"
| "clamp_number Infinity = 100"
| "clamp_number (Finite v) = (if v < 0 then 0 else if v > 100 then 100 else Math_round v)"

definition clampScore :: "runtime \<Rightarrow> jsval \<Rightarrow> error + real" where
  "clampScore rt n =
     (case to_number rt (if truthy n then n else JNum (Finite 0)) of
        Inl e \<Rightarrow> Inl e
      | Inr v \<Rightarrow> Inr (clamp_number v))"

section \<open>Text operations\<close>

text \<open>
  The class \<open>\s\<close> of a regular expression and the characters \<open>trim\<close>
  removes are the same set: TAB, LF, VT, FF, CR, space, no-break space, U+1680,
  U+2000 to U+200A, the line and paragraph separators, U+202F, U+205F, U+3000 and U+FEFF.
\<close>

definition is_space :: "nat \<Rightarrow> bool" where
  "is_space c \<longleftrightarrow>
     c = 9 \<or> c = 10 \<or> c = 11 \<or> c = 12 \<or> c = 13 \<or> c = 32 \<or> c = 160 \<or> c = 5760 \<or>
     (8192 \<le> c \<and> c \<le> 8202) \<or> c = 8232 \<or> c = 8233 \<or> c = 8239 \<or> c = 8287 \<or>
     c = 12288 \<or> c = 65279"

definition trim :: "jsstring \<Rightarrow> jsstring" where
  "trim s = rev (dropWhile is_space (rev (dropWhile is_space s)))"

text \<open>\<open>text.indexOf(m)\<close>: the first position where \<open>m\<close> occurs; \<open>None\<close> is \<open>-1\<close>.\<close>

fun indexOf :: "jsstring \<Rightarrow> jsstring \<Rightarrow> nat option" where
  "indexOf m [] = (if m = [] then Some 0 else None)"
| "indexOf m (x # xs) =
     (if prefix m (x # xs) then Some 0 else map_option Suc (indexOf m xs))"

definition marker :: jsstring where
  "marker = js ''###RESULT_JSON###''"

definition fence :: jsstring where
  "fence = js ''```''"

text \<open>
  \<open>s.replace(/^```json\s*/i, "")\<close>: without the \<open>u\<close> flag a letter of the
  pattern matches its two ASCII cases only.
\<close>

definition json_tag :: "jsstring \<Rightarrow> bool" where
  "json_tag t \<longleftrightarrow>
     (case t of
        [c1, c2, c3, c4] \<Rightarrow>
          (c1 = 106 \<or> c1 = 74) \<and> (c2 = 115 \<or> c2 = 83) \<and>
          (c3 = 111 \<or> c3 = 79) \<and> (c4 = 110 \<or> c4 = 78)
      | _ \<Rightarrow> False)"

definition strip_json_fence :: "jsstring \<Rightarrow> jsstring" where
  "strip_json_fence s =
     (if prefix fence s \<and> json_tag (take 4 (drop 3 s))
      then dropWhile is_space (drop 7 s) else s)"

text \<open>\<open>s.replace(/^```\s*/i, "")\<close>\<close>

definition strip_open_fence :: "jsstring \<Rightarrow> jsstring" where
  "strip_open_fence s = (if prefix fence s then dropWhile is_space (drop 3 s) else s)"

text \<open>
  \<open>s.replace(/```\s*$/i, "")\<close>: a match ends at the end of the text and a backtick
  is no white space, so the only possible match is the three backticks right before the
  trailing white space.
\<close>

definition strip_close_fence :: "jsstring \<Rightarrow> jsstring" where
  "strip_close_fence s =
     (let t = dropWhile is_space (rev s)
      in if prefix fence t then rev (drop 3 t) else s)"

definition strip_fences :: "jsstring \<Rightarrow> jsstring" where
  "strip_fences s = trim (strip_close_fence (strip_open_fence (strip_json_fence s)))"

text \<open>
  \<open>s.match(/(\{[\s\S]*\})/m)\<close>: the match starts at the first \<open>{\<close> that has a
  \<open>}\<close> after it, which is the first \<open>{\<close> of the text if any is, and the greedy
  star runs to the last \<open>}\<close>.  \<open>None\<close> is no match.
\<close>

definition brace_block :: "jsstring \<Rightarrow> jsstring option" where
  "brace_block s =
     (let t = dropWhile (\<lambda>c. c \<noteq> 123) s;
          b = rev (dropWhile (\<lambda>c. c \<noteq> 125) (rev t))
      in if b = [] then None else Some b)"

text \<open>
  \<open>s.replace(/,\s*}/g, "}")\<close> with \<open>c = 125\<close>, and
  \<open>s.replace(/,\s*]/g, "]")\<close> with \<open>c = 93\<close>: a comma, the white space
  after it and the closing character become the closing character, and the scan goes on
  after the match.
\<close>

function strip_comma_before :: "nat \<Rightarrow> jsstring \<Rightarrow> jsstring" where
  "strip_comma_before c [] = []"
| "strip_comma_before c (x # xs) =
     (if x = 44 \<and> prefix [c] (dropWhile is_space xs)
      then c # strip_comma_before c (drop 1 (dropWhile is_space xs))
      else x # strip_comma_before c xs)"
  by pat_completeness auto
termination
proof (relation "measure (\<lambda>(c, s). length s)", goal_cases)
  case 1
  show ?case by simp
next
  case (2 c x xs)
  have "length (dropWhile is_space xs) \<le> length xs"
    by (rule length_dropWhile_le)
  then show ?case by simp
next
  case (3 c x xs)
  show ?case by simp
qed

section \<open>The lenient parser\<close>

text \<open>
  \<^verbatim>\<open>
  function safeParseJSON(text: string): any {
    try { return JSON.parse(text); }
    catch (err) {
      const cleaned = text.replace(/,\s*}/g, "}").replace(/,\s*]/g, "]");
      try { return JSON.parse(cleaned); }
      catch (e) {
        const m = cleaned.match(/(\{[\s\S]*\})/m);
        if (m) {
          try { return JSON.parse(m[1]); }
          catch (er) { throw new Error("Safe parse failed: JSON invalid after cleaning."); }
        }
        throw new Error("Safe parse failed: Not valid JSON.");
      }
    }
  }
  \<close>
\<close>

definition cleaned :: "jsstring \<Rightarrow> jsstring" where
  "cleaned text = strip_comma_before 93 (strip_comma_before 125 text)"

definition safeParseJSON :: "runtime \<Rightarrow> jsstring \<Rightarrow> error + jsval" where
  "safeParseJSON rt text =
     (case JSON_parse rt text of
        Some v \<Rightarrow> Inr v
      | None \<Rightarrow>
          (case JSON_parse rt (cleaned text) of
             Some v \<Rightarrow> Inr v
           | None \<Rightarrow>
               (case brace_block (cleaned text) of
                  Some m \<Rightarrow>
                    (case JSON_parse rt m of
                       Some v \<Rightarrow> Inr v
                     | None \<Rightarrow> Inl SafeParseFailed)
                | None \<Rightarrow> Inl SafeParseFailed)))"

section \<open>The marker-delimited candidate\<close>

text \<open>
  \<^verbatim>\<open>
  const markerIndex = rawText.indexOf(marker);
  if (markerIndex !== -1) {
    jsonCandidate = rawText.substring(markerIndex + marker.length).trim();
    jsonCandidate = jsonCandidate.replace(/^```json\s*/i, "").replace(/^```\s*/i, "")
                                 .replace(/```\s*$/i, "").trim();
  } else {
    const m = rawText.match(/(\{[\s\S]*\})/m);
    if (m) jsonCandidate = m[1];
  }
  \<close>
  \<open>None\<close> is the \<open>null\<close> the variable starts with.
\<close>

definition jsonCandidate :: "jsstring \<Rightarrow> jsstring option" where
  "jsonCandidate rawText =
     (case indexOf marker rawText of
        Some markerIndex \<Rightarrow>
          Some (strip_fences (trim (drop (markerIndex + length marker) rawText)))
      | None \<Rightarrow> brace_block rawText)"

section \<open>The result normalizer\<close>

record ParsedCriteriaAnalysis =
  criteriaId :: jsval
  score :: real
  reasoning :: jsstring
  confidence :: "real option"

record ParsedOptionAnalysis =
  optionId :: jsstring
  criteriaAnalysis :: "ParsedCriteriaAnalysis list"
  pros :: "jsstring list"
  cons :: "jsstring list"

record SherlockResult =
  analysis :: "ParsedOptionAnalysis list"
  verdict :: jsval
  winnerId :: jsval
  recommendation :: jsval
  summary :: jsval
  topRisks :: jsval
  nextSteps :: jsval

text \<open>A step that may throw, followed by the rest of the computation.\<close>

definition and_then :: "error + 'a \<Rightarrow> ('a \<Rightarrow> error + 'b) \<Rightarrow> error + 'b" where
  "and_then m f = (case m of Inl e \<Rightarrow> Inl e | Inr x \<Rightarrow> f x)"

text \<open>\<open>xs.map(f)\<close> where \<open>f\<close> may throw.\<close>

fun map_throwing :: "('a \<Rightarrow> error + 'b) \<Rightarrow> 'a list \<Rightarrow> error + 'b list" where
  "map_throwing f [] = Inr []"
| "map_throwing f (x # xs) =
     and_then (f x) (\<lambda>y. and_then (map_throwing f xs) (\<lambda>ys. Inr (y # ys)))"

fun elems :: "jsval \<Rightarrow> jsval list" where
  "elems (JArr xs) = xs"
| "elems _ = []"

text \<open>
  \<^verbatim>\<open>
  const ensureAnalysisArray = (candidate: any): any[] => {
    if (!candidate) return [];
    if (Array.isArray(candidate)) return candidate;
    if (candidate.analysis && Array.isArray(candidate.analysis)) return candidate.analysis;
    if (candidate.optionId && candidate.criteriaAnalysis) return [candidate];
    return [];
  };
  \<close>
  After the first line the candidate is truthy, so reading its properties does not throw.
\<close>

fun own_prop :: "jsval \<Rightarrow> jsstring \<Rightarrow> jsval" where
  "own_prop (JObj kvs) k = (case map_of kvs k of None \<Rightarrow> JUndefined | Some v \<Rightarrow> v)"
| "own_prop _ k = JUndefined"

definition ensureAnalysisArray :: "jsval \<Rightarrow> jsval list" where
  "ensureAnalysisArray candidate =
     (if \<not> truthy candidate then []
      else if isArray candidate then elems candidate
      else if isArray (own_prop candidate (js ''analysis''))
        then elems (own_prop candidate (js ''analysis''))
      else if truthy (own_prop candidate (js ''optionId'')) \<and>
              truthy (own_prop candidate (js ''criteriaAnalysis''))
        then [candidate]
      else [])"

text \<open>
  \<^verbatim>\<open>
  const normalizedCA = caArray.map((ca: any) => ({
    criteriaId: ca.criteriaId ?? ca.criteria_id ?? ca.criterionId ?? ca.id ?? "",
    score: clampScore(ca.score ?? ca.sc ?? ca.value ?? ca),
    reasoning: String(ca.reasoning ?? ca.reason ?? ca.notes ?? ""),
    confidence: ca.confidence !== undefined ? clampScore(ca.confidence) : undefined
  }))
  \<close>
\<close>

definition normalize_criterion :: "runtime \<Rightarrow> jsval \<Rightarrow> error + ParsedCriteriaAnalysis" where
  "normalize_criterion rt ca =
     and_then (coalesce ca [js ''criteriaId'', js ''criteria_id'', js ''criterionId'', js ''id'']
                 (JStr [])) (\<lambda>cid.
     and_then (coalesce ca [js ''score'', js ''sc'', js ''value''] ca) (\<lambda>raw_score.
     and_then (clampScore rt raw_score) (\<lambda>sc.
     and_then (coalesce ca [js ''reasoning'', js ''reason'', js ''notes''] (JStr [])) (\<lambda>raw_reason.
     and_then (to_string rt raw_reason) (\<lambda>rs.
     and_then (get_prop ca (js ''confidence'')) (\<lambda>raw_conf.
     and_then (if raw_conf \<noteq> JUndefined
               then and_then (clampScore rt raw_conf) (\<lambda>c. Inr (Some c))
               else Inr None) (\<lambda>cf.
     Inr \<lparr>criteriaId = cid, score = sc, reasoning = rs, confidence = cf\<rparr>)))))))"

text \<open>
  \<^verbatim>\<open>
  Array.isArray(a.pros) ? a.pros.map(String)
    : Array.isArray(a.positives) ? a.positives.map(String) : []
  \<close>
\<close>

definition string_list :: "runtime \<Rightarrow> jsval \<Rightarrow> jsstring \<Rightarrow> jsstring \<Rightarrow> error + jsstring list" where
  "string_list rt a k1 k2 =
     and_then (get_prop a k1) (\<lambda>p.
       if isArray p then map_throwing (to_string rt) (elems p)
       else and_then (get_prop a k2) (\<lambda>q.
         if isArray q then map_throwing (to_string rt) (elems q) else Inr []))"

text \<open>
  \<^verbatim>\<open>
  final.analysis = rawAnalysis.map((a: any) => {
    const optId = a.optionId ?? a.option_id ?? a.opt_id ?? a.id ?? "unknown";
    const rawCA = a.criteriaAnalysis ?? a.criteria_analysis ?? a.criteria ?? [];
    const caArray = Array.isArray(rawCA) ? rawCA : [];
    const normalizedCA = caArray.map(...);
    const pros: string[] = ...;
    const cons: string[] = ...;
    return { optionId: String(optId), criteriaAnalysis: normalizedCA, pros, cons };
  });
  \<close>
\<close>

definition normalize_option :: "runtime \<Rightarrow> jsval \<Rightarrow> error + ParsedOptionAnalysis" where
  "normalize_option rt a =
     and_then (coalesce a [js ''optionId'', js ''option_id'', js ''opt_id'', js ''id'']
                 (JStr (js ''unknown''))) (\<lambda>optId.
     and_then (coalesce a [js ''criteriaAnalysis'', js ''criteria_analysis'', js ''criteria'']
                 (JArr [])) (\<lambda>rawCA.
     and_then (map_throwing (normalize_criterion rt) (elems rawCA)) (\<lambda>normalizedCA.
     and_then (string_list rt a (js ''pros'') (js ''positives'')) (\<lambda>ps.
     and_then (string_list rt a (js ''cons'') (js ''negatives'')) (\<lambda>cs.
     and_then (to_string rt optId) (\<lambda>oid.
     Inr \<lparr>optionId = oid, criteriaAnalysis = normalizedCA, pros = ps, cons = cs\<rparr>))))))"

text \<open>
  The second pass over the criteria:
  \<^verbatim>\<open>
  final.analysis.forEach((opt) => {
    opt.criteriaAnalysis = (opt.criteriaAnalysis || []).map((ca) => ({
      criteriaId: ca.criteriaId ?? "",
      score: clampScore(ca.score),
      reasoning: ca.reasoning ?? "",
      confidence: ca.confidence !== undefined ? clampScore(ca.confidence) : undefined
    }));
  });
  \<close>
\<close>

definition reclamp_criterion :: "runtime \<Rightarrow> ParsedCriteriaAnalysis \<Rightarrow> error + ParsedCriteriaAnalysis" where
  "reclamp_criterion rt ca =
     and_then (clampScore rt (JNum (Finite (score ca)))) (\<lambda>sc.
     and_then (case confidence ca of
                 None \<Rightarrow> Inr None
               | Some c \<Rightarrow> and_then (clampScore rt (JNum (Finite c))) (\<lambda>c'. Inr (Some c'))) (\<lambda>cf.
     Inr \<lparr>criteriaId = (if nullish (criteriaId ca) then JStr [] else criteriaId ca),
          score = sc, reasoning = reasoning ca, confidence = cf\<rparr>))"

definition reclamp_option :: "runtime \<Rightarrow> ParsedOptionAnalysis \<Rightarrow> error + ParsedOptionAnalysis" where
  "reclamp_option rt opt =
     and_then (map_throwing (reclamp_criterion rt) (criteriaAnalysis opt)) (\<lambda>cas.
     Inr (opt\<lparr>criteriaAnalysis := cas\<rparr>))"

text \<open>
  The normalizer: from the parsed value to the result, before the winner is inferred.
  \<^verbatim>\<open>
  const rawAnalysis = ensureAnalysisArray(parsedRaw.analysis ?? parsedRaw.analysis ?? parsedRaw);
  const final: SherlockResult = {
    analysis: [],
    verdict: parsedRaw.verdict ?? parsedRaw.summary ?? parsedRaw.verdict_text ?? "",
    winnerId: parsedRaw.winnerId ?? parsedRaw.winner_id ?? parsedRaw.winner ?? "",
    recommendation: parsedRaw.recommendation ?? parsedRaw.advice ?? "",
    summary: parsedRaw.summary ?? undefined,
    topRisks: parsedRaw.topRisks ?? parsedRaw.risks ?? undefined,
    nextSteps: parsedRaw.nextSteps ?? parsedRaw.actions ?? undefined
  };
  final.analysis = rawAnalysis.map(...);
  if (!Array.isArray(final.analysis)) final.analysis = [];
  final.analysis.forEach(...);
  \<close>
  The result of \<open>map\<close> is an array, so the guard after it changes nothing.
\<close>

definition normalize :: "runtime \<Rightarrow> jsval \<Rightarrow> error + SherlockResult" where
  "normalize rt parsedRaw =
     and_then (coalesce parsedRaw [js ''analysis'', js ''analysis''] parsedRaw) (\<lambda>candidate.
     and_then (coalesce parsedRaw [js ''verdict'', js ''summary'', js ''verdict_text'']
                 (JStr [])) (\<lambda>v.
     and_then (coalesce parsedRaw [js ''winnerId'', js ''winner_id'', js ''winner'']
                 (JStr [])) (\<lambda>w.
     and_then (coalesce parsedRaw [js ''recommendation'', js ''advice''] (JStr [])) (\<lambda>r.
     and_then (coalesce parsedRaw [js ''summary''] JUndefined) (\<lambda>s.
     and_then (coalesce parsedRaw [js ''topRisks'', js ''risks''] JUndefined) (\<lambda>tr.
     and_then (coalesce parsedRaw [js ''nextSteps'', js ''actions''] JUndefined) (\<lambda>ns.
     and_then (map_throwing (normalize_option rt) (ensureAnalysisArray candidate)) (\<lambda>opts.
     and_then (map_throwing (reclamp_option rt) opts) (\<lambda>opts'.
     Inr \<lparr>analysis = opts', verdict = v, winnerId = w, recommendation = r,
          summary = s, topRisks = tr, nextSteps = ns\<rparr>)))))))))"

section \<open>Winner inference\<close>

text \<open>
  \<^verbatim>\<open>
  if (!final.winnerId && final.analysis.length > 1) {
    const candidate = final.analysis
      .map((opt) => {
        const avg = opt.criteriaAnalysis.length
          ? opt.criteriaAnalysis.reduce((s, c) => s + c.score, 0) / opt.criteriaAnalysis.length
          : 0;
        return { optionId: opt.optionId, avg };
      })
      .sort((a, b) => b.avg - a.avg)[0];
    if (candidate) final.winnerId = candidate.optionId;
  }
  \<close>
  \<open>Array.prototype.sort\<close> is stable, and the comparator puts the larger average first:
  it is the stable sort on the negated average.  The division is the exact one.
\<close>

definition avg :: "ParsedOptionAnalysis \<Rightarrow> real" where
  "avg opt =
     (if length (criteriaAnalysis opt) \<noteq> 0
      then foldl (\<lambda>s c. s + score c) 0 (criteriaAnalysis opt) / real (length (criteriaAnalysis opt))
      else 0)"

definition infer_winner :: "SherlockResult \<Rightarrow> SherlockResult" where
  "infer_winner final =
     (if \<not> truthy (winnerId final) \<and> length (analysis final) > 1
      then (case sort_key (\<lambda>c. - snd c) (map (\<lambda>opt. (optionId opt, avg opt)) (analysis final)) of
              [] \<Rightarrow> final
            | candidate # _ \<Rightarrow> final\<lparr>winnerId := JStr (fst candidate)\<rparr>)
      else final)"

section \<open>From the extracted text to the result\<close>

text \<open>
  The part of \<open>analyzeDecision\<close> after the text is extracted:
  \<^verbatim>\<open>
  if (!jsonCandidate) { ...; throw new Error("Model did not return extractable JSON. ..."); }
  try { parsedRaw = safeParseJSON(jsonCandidate); }
  catch (err) { ...; throw new Error("AI returned invalid JSON. See console."); }
  ...
  return final;
  \<close>
\<close>

definition normalize_and_infer :: "runtime \<Rightarrow> jsval \<Rightarrow> error + SherlockResult" where
  "normalize_and_infer rt parsedRaw =
     and_then (normalize rt parsedRaw) (\<lambda>final. Inr (infer_winner final))"

definition analyze_text :: "runtime \<Rightarrow> jsstring \<Rightarrow> error + SherlockResult" where
  "analyze_text rt rawText =
     (case jsonCandidate rawText of
        None \<Rightarrow> Inl NoJsonFound
      | Some c \<Rightarrow>
          if c = [] then Inl NoJsonFound
          else (case safeParseJSON rt c of
                  Inl e \<Rightarrow> Inl InvalidJson
                | Inr parsedRaw \<Rightarrow> normalize_and_infer rt parsedRaw))"

section \<open>Text extraction from the response\<close>

fun truthy_r :: "resp \<Rightarrow> bool" where
  "truthy_r RUndefined = False"
| "truthy_r RNull = False"
| "truthy_r (RBool b) = b"
| "truthy_r (RNum NaN) = False"
| "truthy_r (RNum (Finite r)) = (r \<noteq> 0)"
| "truthy_r (RNum _) = True"
| "truthy_r (RStr s) = (s \<noteq> [])"
| "truthy_r _ = True"

fun nullish_r :: "resp \<Rightarrow> bool" where
  "nullish_r RUndefined = True"
| "nullish_r RNull = True"
| "nullish_r _ = False"

text \<open>A property of a value that is neither \<open>null\<close> nor \<open>undefined\<close>.\<close>

fun prop_r :: "resp \<Rightarrow> jsstring \<Rightarrow> resp" where
  "prop_r (RObj kvs) k = (case map_of kvs k of None \<Rightarrow> RUndefined | Some v \<Rightarrow> v)"
| "prop_r _ k = RUndefined"

text \<open>\<open>typeof v === "string" && v.length\<close>\<close>

fun nonempty_string :: "resp \<Rightarrow> bool" where
  "nonempty_string (RStr s) = (s \<noteq> [])"
| "nonempty_string _ = False"

fun is_function :: "resp \<Rightarrow> bool" where
  "is_function (RFun _) = True"
| "is_function _ = False"

fun is_array_r :: "resp \<Rightarrow> bool" where
  "is_array_r (RArr _) = True"
| "is_array_r _ = False"

fun elems_r :: "resp \<Rightarrow> resp list" where
  "elems_r (RArr xs) = xs"
| "elems_r _ = []"

subsection \<open>The helper of the Gemini service\<close>

text \<open>
  The inner loop of step 4 of \<open>extractRawText\<close>; \<open>Some v\<close> is
  \<open>return v\<close>, \<open>None\<close> is the end of the loop.
  \<^verbatim>\<open>
  for (const c of out.content) {
    if (!c) continue;
    if (typeof c.text === "string" && c.text.length) return c.text;
    if (c.mimeType === "application/json" && c.json) {
      try { return JSON.stringify(c.json); } catch (e) { }
    }
    if (typeof c === "string" && c.length) return c;
  }
  \<close>
\<close>

fun scan_content :: "runtime \<Rightarrow> resp list \<Rightarrow> resp option" where
  "scan_content rt [] = None"
| "scan_content rt (c # cs) =
     (if \<not> truthy_r c then scan_content rt cs
      else if nonempty_string (prop_r c (js ''text'')) then Some (prop_r c (js ''text''))
      else if prop_r c (js ''mimeType'') = RStr (js ''application/json'') \<and>
              truthy_r (prop_r c (js ''json'')) \<and>
              JSON_stringify rt (prop_r c (js ''json'')) \<noteq> StringifyThrows
        then Some (case JSON_stringify rt (prop_r c (js ''json'')) of
                     Stringified s \<Rightarrow> RStr s
                   | _ \<Rightarrow> RUndefined)
      else if nonempty_string c then Some c
      else scan_content rt cs)"

text \<open>
  \<^verbatim>\<open>
  for (const out of (response as any).outputs) {
    if (!out) continue;
    if (typeof out.text === "string" && out.text.length) return out.text;
    if (Array.isArray(out.content)) { for (const c of out.content) { ... } }
  }
  \<close>
\<close>

fun scan_outputs :: "runtime \<Rightarrow> resp list \<Rightarrow> resp option" where
  "scan_outputs rt [] = None"
| "scan_outputs rt (out # outs) =
     (if \<not> truthy_r out then scan_outputs rt outs
      else if nonempty_string (prop_r out (js ''text'')) then Some (prop_r out (js ''text''))
      else if is_array_r (prop_r out (js ''content'')) then
        (case scan_content rt (elems_r (prop_r out (js ''content''))) of
           Some v \<Rightarrow> Some v
         | None \<Rightarrow> scan_outputs rt outs)
      else scan_outputs rt outs)"

text \<open>
  The five strategies of \<open>extractRawText\<close>, each \<open>Some v\<close> when it returns
  \<open>v\<close> and \<open>None\<close> when the next one is tried.
  \<^verbatim>\<open>
  try {
    if (response && typeof response.text === "function") {
      const t = await response.text();
      if (typeof t === "string" && t.length) return t;
    }
  } catch (e) { console.warn("response.text() call failed:", e); }
  if (response && typeof response.text === "string" && response.text.length) return response.text;
  if (response && typeof (response as any).outputText === "string"
      && (response as any).outputText.length) return (response as any).outputText;
  if (response && Array.isArray((response as any).outputs)) { try { ... } catch (e) { ... } }
  try { const s = JSON.stringify(response); if (s && s.length) return s; } catch (e) { }
  return String(response ?? "");
  \<close>
\<close>

definition text_accessor :: "resp \<Rightarrow> resp option" where
  "text_accessor response =
     (if truthy_r response then
        (case prop_r response (js ''text'') of
           RFun (Some t) \<Rightarrow> if nonempty_string t then Some t else None
         | _ \<Rightarrow> None)
      else None)"

definition text_field :: "resp \<Rightarrow> resp option" where
  "text_field response =
     (if truthy_r response \<and> nonempty_string (prop_r response (js ''text''))
      then Some (prop_r response (js ''text'')) else None)"

definition outputText_field :: "resp \<Rightarrow> resp option" where
  "outputText_field response =
     (if truthy_r response \<and> nonempty_string (prop_r response (js ''outputText''))
      then Some (prop_r response (js ''outputText'')) else None)"

definition outputs_scan :: "runtime \<Rightarrow> resp \<Rightarrow> resp option" where
  "outputs_scan rt response =
     (if truthy_r response \<and> is_array_r (prop_r response (js ''outputs''))
      then scan_outputs rt (elems_r (prop_r response (js ''outputs''))) else None)"

definition serialization :: "runtime \<Rightarrow> resp \<Rightarrow> resp option" where
  "serialization rt response =
     (case JSON_stringify rt response of
        Stringified s \<Rightarrow> if s \<noteq> [] then Some (RStr s) else None
      | _ \<Rightarrow> None)"

text \<open>\<open>String(v)\<close> on a response: a string is itself.\<close>

definition String_r :: "runtime \<Rightarrow> resp \<Rightarrow> jsstring option" where
  "String_r rt v = (case v of RStr s \<Rightarrow> Some s | _ \<Rightarrow> String_of rt v)"

definition last_resort :: "runtime \<Rightarrow> resp \<Rightarrow> error + resp" where
  "last_resort rt response =
     (case String_r rt (if nullish_r response then RStr [] else response) of
        None \<Rightarrow> Inl TypeError
      | Some s \<Rightarrow> Inr (RStr s))"

definition extractRawText :: "runtime \<Rightarrow> resp \<Rightarrow> error + resp" where
  "extractRawText rt response =
     (case text_accessor response of Some t \<Rightarrow> Inr t | None \<Rightarrow>
     (case text_field response of Some t \<Rightarrow> Inr t | None \<Rightarrow>
     (case outputText_field response of Some t \<Rightarrow> Inr t | None \<Rightarrow>
     (case outputs_scan rt response of Some t \<Rightarrow> Inr t | None \<Rightarrow>
     (case serialization rt response of Some t \<Rightarrow> Inr t | None \<Rightarrow>
      last_resort rt response)))))"

subsection \<open>The inline extraction of decisionSherlock\<close>

text \<open>
  \<^verbatim>\<open>
  let rawText = "";
  try {
    if ((response as any).value) {
      rawText = JSON.stringify((response as any).value);
    } else if ((response as any).text && typeof (response as any).text === "function") {
      rawText = await (response as any).text();
    } else if (typeof (response as any).text === "string") {
      rawText = (response as any).text;
    } else if ((response as any).outputs && Array.isArray((response as any).outputs)) {
      rawText = (response as any).outputs.map((o: any) => (o?.text ?? JSON.stringify(o))).join("\n");
    } else {
      rawText = JSON.stringify(response);
    }
  } catch (err) {
    console.error("Failed to extract text from model response:", err, response);
    throw new Error("Failed to extract model text.");
  }
  \<close>
  Whatever is thrown inside the block leaves it as the one error \<open>ExtractFailed\<close>.
\<close>

definition stringify_value :: "runtime \<Rightarrow> resp \<Rightarrow> error + resp" where
  "stringify_value rt v =
     (case JSON_stringify rt v of
        StringifyThrows \<Rightarrow> Inl ExtractFailed
      | StringifyUndefined \<Rightarrow> Inr RUndefined
      | Stringified s \<Rightarrow> Inr (RStr s))"

text \<open>\<open>o?.text ?? JSON.stringify(o)\<close>\<close>

definition output_text :: "runtime \<Rightarrow> resp \<Rightarrow> error + resp" where
  "output_text rt o' =
     (if \<not> nullish_r o' \<and> \<not> nullish_r (prop_r o' (js ''text''))
      then Inr (prop_r o' (js ''text''))
      else stringify_value rt o')"

text \<open>\<open>xs.join("\n")\<close>: \<open>null\<close> and \<open>undefined\<close> give the empty string.\<close>

fun join_lines :: "runtime \<Rightarrow> resp list \<Rightarrow> error + jsstring" where
  "join_lines rt [] = Inr []"
| "join_lines rt (x # xs) =
     and_then (if nullish_r x then Inr []
               else (case String_r rt x of None \<Rightarrow> Inl ExtractFailed | Some s \<Rightarrow> Inr s)) (\<lambda>s.
       if xs = [] then Inr s
       else and_then (join_lines rt xs) (\<lambda>t. Inr (s @ [10] @ t)))"

definition inline_extract :: "runtime \<Rightarrow> resp \<Rightarrow> error + resp" where
  "inline_extract rt response =
     (if nullish_r response then Inl ExtractFailed
      else if truthy_r (prop_r response (js ''value''))
        then stringify_value rt (prop_r response (js ''value''))
      else if is_function (prop_r response (js ''text'')) then
        (case prop_r response (js ''text'') of
           RFun (Some t) \<Rightarrow> Inr t
         | _ \<Rightarrow> Inl ExtractFailed)
      else if (case prop_r response (js ''text'') of RStr s \<Rightarrow> True | _ \<Rightarrow> False)
        then Inr (prop_r response (js ''text''))
      else if is_array_r (prop_r response (js ''outputs'')) then
        and_then (map_throwing (output_text rt) (elems_r (prop_r response (js ''outputs'')))) (\<lambda>ts.
        and_then (join_lines rt ts) (\<lambda>s. Inr (RStr s)))
      else stringify_value rt response)"

section \<open>analyzeDecision\<close>

text \<open>
  The state outside the function: \<open>process.env\<close> (a name that is not set reads as
  \<open>undefined\<close>), the global \<open>__API_KEY__\<close>, and the calls of the model made so
  far, each with the key of the client and the decision the prompts were built from.  The
  model is an external collaborator: a function from the key and the decision to a response,
  \<open>None\<close> when the call throws.
  \<^verbatim>\<open>
  if (!process.env.API_KEY) {
    const fallback = (globalThis as any).__API_KEY__;
    if (!fallback) {
      throw new Error("Missing API key. ...");
    } else {
      (process as any).env = { ...(process as any).env, API_KEY: fallback };
    }
  }
  const ai = new GoogleGenAI({ apiKey: process.env.API_KEY });
  ...
  try { response = await ai.models.generateContent({ ... }); }
  catch (err: any) { console.error("Gemini API ERROR:", err); throw err; }
  \<close>
\<close>

record 'd world =
  process_env :: "jsstring \<Rightarrow> jsval"
  global_API_KEY :: jsval
  invocations :: "(jsval \<times> 'd) list"

definition resolve_api_key :: "'d world \<Rightarrow> error + 'd world" where
  "resolve_api_key w =
     (if \<not> truthy (process_env w (js ''API_KEY'')) then
        (if \<not> truthy (global_API_KEY w) then Inl MissingApiKey
         else Inr (w\<lparr>process_env := (process_env w)(js ''API_KEY'' := global_API_KEY w)\<rparr>))
      else Inr w)"

text \<open>
  After the extraction the text is sliced, searched and matched as a string; a value that
  is no string has not the methods of one.
\<close>

definition post_process :: "runtime \<Rightarrow> resp \<Rightarrow> error + SherlockResult" where
  "post_process rt response =
     and_then (inline_extract rt response) (\<lambda>rawText.
       case rawText of RStr s \<Rightarrow> analyze_text rt s | _ \<Rightarrow> Inl TypeError)"

definition analyzeDecision ::
  "runtime \<Rightarrow> (jsval \<Rightarrow> 'd \<Rightarrow> resp option) \<Rightarrow> 'd world \<Rightarrow> 'd \<Rightarrow> (error + SherlockResult) \<times> 'd world" where
  "analyzeDecision rt model w data =
     (case resolve_api_key w of
        Inl e \<Rightarrow> (Inl e, w)
      | Inr w1 \<Rightarrow>
          (let apiKey = process_env w1 (js ''API_KEY'');
               w2 = w1\<lparr>invocations := invocations w1 @ [(apiKey, data)]\<rparr>
           in case model apiKey data of
                None \<Rightarrow> (Inl ModelInvocationFailure, w2)
              | Some response \<Rightarrow> (post_process rt response, w2)))"

section \<open>The Gemini service, from the extracted text to the parsed value\<close>

text \<open>
  \<^verbatim>\<open>
  const pos = rawText.indexOf(marker);
  if (pos === -1) {
    const fallbackMatch = rawText.match(/(\{[\s\S]*\})/m);
    if (!fallbackMatch) { ...; throw new Error("Model did NOT output ###RESULT_JSON###. ..."); }
  }
  let jsonText: string;
  if (pos !== -1) { jsonText = rawText.substring(pos + marker.length).trim(); }
  else { const fallbackMatch = rawText.match(/(\{[\s\S]*\})/m);
         jsonText = fallbackMatch ? fallbackMatch[1] : ""; }
  const cleaned = jsonText.replace(/^```json\s*/i, "").replace(/^```\s*/i, "")
                          .replace(/```\s*$/i, "").trim();
  try { parsed = JSON.parse(cleaned); }
  catch (err) { ...; throw new Error("AI returned invalid JSON. ..."); }
  \<close>
\<close>

definition gemini_cleaned :: "jsstring \<Rightarrow> error + jsstring" where
  "gemini_cleaned rawText =
     (case indexOf marker rawText of
        Some pos \<Rightarrow> Inr (strip_fences (trim (drop (pos + length marker) rawText)))
      | None \<Rightarrow>
          (case brace_block rawText of
             None \<Rightarrow> Inl NoJsonFound
           | Some m \<Rightarrow> Inr (strip_fences m)))"

definition gemini_parse :: "runtime \<Rightarrow> jsstring \<Rightarrow> error + jsval" where
  "gemini_parse rt rawText =
     and_then (gemini_cleaned rawText) (\<lambda>c.
       case JSON_parse rt c of None \<Rightarrow> Inl InvalidJson | Some parsed \<Rightarrow> Inr parsed)"

section \<open>The advertised schema\<close>

text \<open>
  The schema the prompt advertises (\<open>createSystemPrompt\<close>, \<open>EXAMPLE_JSON\<close>):
  \<^verbatim>\<open>
  { "analysis": [ { "optionId": "...",
                    "criteriaAnalysis": [ { "criteriaId": "...", "score": 0-100,
                                            "reasoning": "...", "confidence": optional_number } ],
                    "pros": ["..."], "cons": ["..."] } ],
    "verdict": "...", "winnerId": "...", "recommendation": "..." }
  \<close>
  \<open>encode_result r\<close> is the parsed payload that says \<open>r\<close> in this schema, with the
  canonical field names; \<open>conforms r\<close> says that the identifiers and texts are strings
  and every score is an integer from 0 to 100.
\<close>

fun is_string :: "jsval \<Rightarrow> bool" where
  "is_string (JStr s) = True"
| "is_string _ = False"

definition encode_criterion :: "ParsedCriteriaAnalysis \<Rightarrow> jsval" where
  "encode_criterion ca =
     JObj ([(js ''criteriaId'', criteriaId ca),
            (js ''score'', JNum (Finite (score ca))),
            (js ''reasoning'', JStr (reasoning ca))] @
           (case confidence ca of
              None \<Rightarrow> []
            | Some c \<Rightarrow> [(js ''confidence'', JNum (Finite c))]))"

definition encode_option :: "ParsedOptionAnalysis \<Rightarrow> jsval" where
  "encode_option opt =
     JObj [(js ''optionId'', JStr (optionId opt)),
           (js ''criteriaAnalysis'', JArr (map encode_criterion (criteriaAnalysis opt))),
           (js ''pros'', JArr (map JStr (pros opt))),
           (js ''cons'', JArr (map JStr (cons opt)))]"

definition encode_result :: "SherlockResult \<Rightarrow> jsval" where
  "encode_result r =
     JObj [(js ''analysis'', JArr (map encode_option (analysis r))),
           (js ''verdict'', verdict r),
           (js ''winnerId'', winnerId r),
           (js ''recommendation'', recommendation r)]"

definition conforming_score :: "real \<Rightarrow> bool" where
  "conforming_score s \<longleftrightarrow> s \<in> \<int> \<and> 0 \<le> s \<and> s \<le> 100"

definition conforms :: "SherlockResult \<Rightarrow> bool" where
  "conforms r \<longleftrightarrow>
     is_string (verdict r) \<and> is_string (winnerId r) \<and> is_string (recommendation r) \<and>
     list_all (\<lambda>opt. list_all (\<lambda>ca. is_string (criteriaId ca) \<and> conforming_score (score ca))
                        (criteriaAnalysis opt))
       (analysis r)"

text \<open>
  What the normalizer makes of a conforming result: all of it, the optional confidences
  clamped like scores.
\<close>

definition clamp_confidence :: "ParsedCriteriaAnalysis \<Rightarrow> ParsedCriteriaAnalysis" where
  "clamp_confidence ca =
     ca\<lparr>confidence := map_option (\<lambda>c. clamp_number (Finite c)) (confidence ca)\<rparr>"

definition clamp_confidences :: "ParsedOptionAnalysis \<Rightarrow> ParsedOptionAnalysis" where
  "clamp_confidences opt =
     opt\<lparr>criteriaAnalysis := map clamp_confidence (criteriaAnalysis opt)\<rparr>"

section \<open>Examples\<close>

text \<open>
  The scenario of the specification: the payload
  \<^verbatim>\<open>{"analysis":[{"optionId":"o1","criteriaAnalysis":[{"criteriaId":"c1","score":150,
  "reasoning":"x"}],"pros":[],"cons":[]}],"verdict":"v","winnerId":"o1","recommendation":"r"}\<close>
  and the value \<open>JSON.parse\<close> gives for it.
\<close>

definition example_payload :: jsstring where
  \<open>example_payload = js ''{"analysis":[{"optionId":"o1","criteriaAnalysis":[{"criteriaId":"c1","score":150,"reasoning":"x"}],"pros":[],"cons":[]}],"verdict":"v","winnerId":"o1","recommendation":"r"}''\<close>

definition example_parsed :: jsval where
  "example_parsed =
     JObj [(js ''analysis'',
             JArr [JObj [(js ''optionId'', JStr (js ''o1'')),
                         (js ''criteriaAnalysis'',
                           JArr [JObj [(js ''criteriaId'', JStr (js ''c1'')),
                                       (js ''score'', JNum (Finite 150)),
                                       (js ''reasoning'', JStr (js ''x''))]]),
                         (js ''pros'', JArr []),
                         (js ''cons'', JArr [])]]),
           (js ''verdict'', JStr (js ''v'')),
           (js ''winnerId'', JStr (js ''o1'')),
           (js ''recommendation'', JStr (js ''r''))]"

definition example_result :: SherlockResult where
  "example_result =
     \<lparr>analysis =
        [\<lparr>optionId = js ''o1'',
          criteriaAnalysis =
            [\<lparr>criteriaId = JStr (js ''c1''), score = 100, reasoning = js ''x'',
              confidence = None\<rparr>],
          pros = [], cons = []\<rparr>],
      verdict = JStr (js ''v''), winnerId = JStr (js ''o1''), recommendation = JStr (js ''r''),
      summary = JUndefined, topRisks = JUndefined, nextSteps = JUndefined\<rparr>"

text \<open>
  A payload in the advertised schema whose winner names no option:
  \<^verbatim>\<open>{"analysis":[{"optionId":"o1","criteriaAnalysis":[{"criteriaId":"c1","score":80,
  "reasoning":"x"}],"pros":[],"cons":[]}],"verdict":"v","winnerId":"o9","recommendation":"r"}\<close>
\<close>

definition stray_payload :: jsstring where
  \<open>stray_payload = js ''{"analysis":[{"optionId":"o1","criteriaAnalysis":[{"criteriaId":"c1","score":80,"reasoning":"x"}],"pros":[],"cons":[]}],"verdict":"v","winnerId":"o9","recommendation":"r"}''\<close>

definition stray_parsed :: jsval where
  "stray_parsed =
     JObj [(js ''analysis'',
             JArr [JObj [(js ''optionId'', JStr (js ''o1'')),
                         (js ''criteriaAnalysis'',
                           JArr [JObj [(js ''criteriaId'', JStr (js ''c1'')),
                                       (js ''score'', JNum (Finite 80)),
                                       (js ''reasoning'', JStr (js ''x''))]]),
                         (js ''pros'', JArr []),
                         (js ''cons'', JArr [])]]),
           (js ''verdict'', JStr (js ''v'')),
           (js ''winnerId'', JStr (js ''o9'')),
           (js ''recommendation'', JStr (js ''r''))]"

definition stray_result :: SherlockResult where
  "stray_result =
     \<lparr>analysis =
        [\<lparr>optionId = js ''o1'',
          criteriaAnalysis =
            [\<lparr>criteriaId = JStr (js ''c1''), score = 80, reasoning = js ''x'',
              confidence = None\<rparr>],
          pros = [], cons = []\<rparr>],
      verdict = JStr (js ''v''), winnerId = JStr (js ''o9''), recommendation = JStr (js ''r''),
      summary = JUndefined, topRisks = JUndefined, nextSteps = JUndefined\<rparr>"

text \<open>
  A payload that conforms to the schema, and the result it says:
  \<^verbatim>\<open>{"analysis":[{"optionId":"o1","criteriaAnalysis":[{"criteriaId":"c1","score":88,
  "reasoning":"Good rent"},{"criteriaId":"c2","score":70,"reasoning":"Far"}],
  "pros":["Great location"],"cons":["Small"]},{"optionId":"o2","criteriaAnalysis":
  [{"criteriaId":"c1","score":0,"reasoning":""},{"criteriaId":"c2","score":100,
  "reasoning":"Near"}],"pros":[],"cons":[]}],"verdict":"Option 1","winnerId":"o1",
  "recommendation":"Take 1"}\<close>
\<close>

definition conforming_payload :: jsstring where
  \<open>conforming_payload = js ''{"analysis":[{"optionId":"o1","criteriaAnalysis":[{"criteriaId":"c1","score":88,"reasoning":"Good rent"},{"criteriaId":"c2","score":70,"reasoning":"Far"}],"pros":["Great location"],"cons":["Small"]},{"optionId":"o2","criteriaAnalysis":[{"criteriaId":"c1","score":0,"reasoning":""},{"criteriaId":"c2","score":100,"reasoning":"Near"}],"pros":[],"cons":[]}],"verdict":"Option 1","winnerId":"o1","recommendation":"Take 1"}''\<close>

definition conforming_result :: SherlockResult where
  "conforming_result =
     \<lparr>analysis =
        [\<lparr>optionId = js ''o1'',
          criteriaAnalysis =
            [\<lparr>criteriaId = JStr (js ''c1''), score = 88, reasoning = js ''Good rent'',
              confidence = None\<rparr>,
             \<lparr>criteriaId = JStr (js ''c2''), score = 70, reasoning = js ''Far'',
              confidence = None\<rparr>],
          pros = [js ''Great location''], cons = [js ''Small'']\<rparr>,
         \<lparr>optionId = js ''o2'',
          criteriaAnalysis =
            [\<lparr>criteriaId = JStr (js ''c1''), score = 0, reasoning = [],
              confidence = None\<rparr>,
             \<lparr>criteriaId = JStr (js ''c2''), score = 100, reasoning = js ''Near'',
              confidence = None\<rparr>],
          pros = [], cons = []\<rparr>],
      verdict = JStr (js ''Option 1''), winnerId = JStr (js ''o1''),
      recommendation = JStr (js ''Take 1''),
      summary = JUndefined, topRisks = JUndefined, nextSteps = JUndefined\<rparr>"

text \<open>
  A runtime for the examples.  It is the real one on the texts the examples hand to it:
  \<open>JSON.parse\<close> knows the payloads above, \<open>null\<close> and \<^verbatim>\<open>{"a":1}\<close>, and
  throws on the other texts of the examples, none of which is JSON; \<open>Number("high")\<close>
  is \<open>NaN\<close>; \<open>JSON.stringify\<close> of \<open>undefined\<close> and of a function is
  \<open>undefined\<close>, and \<open>String\<close> of the function \<^verbatim>\<open>() => "hi"\<close> is its
  source text.  No example serializes another value.
\<close>

definition example_parses :: "(jsstring \<times> jsval) list" where
  \<open>example_parses =
     [(example_payload, example_parsed),
      (stray_payload, stray_parsed),
      (conforming_payload, encode_result conforming_result),
      (js ''null'', JNull),
      (js ''{"a":1}'', JObj [(js ''a'', JNum (Finite 1))])]\<close>

definition example_runtime :: runtime where
  \<open>example_runtime =
     \<lparr>JSON_parse = map_of example_parses,
      StringToNumber = (\<lambda>s. NaN),
      NumberToString = (\<lambda>r. js ''0''),
      JSON_stringify =
        (\<lambda>v. case v of
               RUndefined \<Rightarrow> StringifyUndefined
             | RFun f \<Rightarrow> StringifyUndefined
             | RNull \<Rightarrow> Stringified (js ''null'')
             | _ \<Rightarrow> StringifyThrows),
      String_of =
        (\<lambda>v. case v of
               RFun f \<Rightarrow> Some (js ''() => "hi"'')
             | _ \<Rightarrow> Some (js ''[object Object]''))\<rparr>\<close>

text \<open>
  Three options with the averages 72, 90 and 90 and no winner, and the same result cut to
  its first option.
\<close>

definition scored :: "jsstring \<Rightarrow> real list \<Rightarrow> ParsedOptionAnalysis" where
  "scored oid scores =
     \<lparr>optionId = oid,
      criteriaAnalysis =
        map (\<lambda>s. \<lparr>criteriaId = JStr (js ''c''), score = s, reasoning = [], confidence = None\<rparr>)
          scores,
      pros = [], cons = []\<rparr>"

definition tie_example :: SherlockResult where
  "tie_example =
     \<lparr>analysis = [scored (js ''o1'') [70, 74], scored (js ''o2'') [90],
                  scored (js ''o3'') [85, 95]],
      verdict = JStr (js ''v''), winnerId = JStr [], recommendation = JStr (js ''r''),
      summary = JUndefined, topRisks = JUndefined, nextSteps = JUndefined\<rparr>"

definition single_example :: SherlockResult where
  "single_example = tie_example\<lparr>analysis := [scored (js ''o1'') [70, 74]]\<rparr>"

text \<open>
  Worlds for \<open>analyzeDecision\<close>: no key anywhere, and a key in the global fallback only;
  a model that fails on every call.
\<close>

definition no_key_world :: "unit world" where
  "no_key_world =
     \<lparr>process_env = (\<lambda>k. JUndefined), global_API_KEY = JUndefined, invocations = []\<rparr>"

definition fallback_world :: "unit world" where
  "fallback_world =
     \<lparr>process_env = (\<lambda>k. JUndefined), global_API_KEY = JStr (js ''dev-key''),
      invocations = []\<rparr>"

definition failing_model :: "jsval \<Rightarrow> unit \<Rightarrow> resp option" where
  "failing_model apiKey data = None"

text \<open>
  Candidates for the lenient parser: an object, the same with a trailing comma, the same
  inside a sentence, and a sentence with no object.
\<close>

definition bare_object :: jsstring where
  \<open>bare_object = js ''{"a":1}''\<close>

definition trailing_comma_text :: jsstring where
  \<open>trailing_comma_text = js ''{"a":1, }''\<close>

definition wrapped_text :: jsstring where
  \<open>wrapped_text = js ''Sure: {"a":1} done''\<close>

definition plain_text :: jsstring where
  \<open>plain_text = js ''no json here''\<close>

definition bare_object_parsed :: jsval where
  "bare_object_parsed = JObj [(js ''a'', JNum (Finite 1))]"

text \<open>
  A model text with the marker and a fenced payload:
  \<^verbatim>\<open>Here you go:
  ###RESULT_JSON###
  ```json
  {"a":1}
  ```\<close>
\<close>

definition fenced_text :: jsstring where
  \<open>fenced_text =
     js ''Here you go:\<newline>###RESULT_JSON###\<newline>```json\<newline>{"a":1}\<newline>```\<newline>''\<close>

text \<open>
  Responses: one whose \<open>text\<close> accessor throws and which has an \<open>outputText\<close>,
  one whose accessor returns a text, one with an \<open>outputs\<close> array, and one that is
  itself the function \<^verbatim>\<open>() => "hi"\<close>.
\<close>

definition throwing_response :: resp where
  "throwing_response = RObj [(js ''text'', RFun None), (js ''outputText'', RStr (js ''hi''))]"

definition accessor_response :: resp where
  "accessor_response =
     RObj [(js ''text'', RFun (Some (RStr (js ''abc'')))), (js ''outputText'', RStr (js ''hi''))]"

definition outputs_response :: resp where
  "outputs_response =
     RObj [(js ''outputs'',
             RArr [RNull,
                   RObj [(js ''content'', RArr [RObj [(js ''text'', RStr (js ''deep''))]])]])]"

definition callable_response :: resp where
  "callable_response = RFun (Some (RStr (js ''hi'')))"

section \<open>Auxiliary facts\<close>


lemma and_then_simps [simp]: "and_then (Inl e) f = Inl e" "and_then (Inr x) f = f x"
  by (simp_all add: and_then_def)


subsection \<open>The clamp\<close>

lemma Math_round_range:
  assumes "0 \<le> v" "v \<le> 100"
  shows "\<exists>k::int. Math_round v = of_int k \<and> 0 \<le> k \<and> k \<le> 100 \<and> \<bar>v - of_int k\<bar> \<le> 1 / 2"
proof -
  let ?k = "\<lfloor>v + 1 / 2\<rfloor>"
  have lo: "of_int ?k \<le> v + 1 / 2" by (rule of_int_floor_le)
  have hi: "v + 1 / 2 < of_int ?k + 1" by linarith
  have "0 \<le> ?k" using assms(1) by simp
  moreover have "?k \<le> 100" using assms(2) by (simp add: floor_le_iff)
  moreover have "\<bar>v - of_int ?k\<bar> \<le> 1 / 2" using lo hi by linarith
  ultimately show ?thesis unfolding Math_round_def by blast
qed

lemma clamp_number_range: "\<exists>k::int. clamp_number v = of_int k \<and> 0 \<le> k \<and> k \<le> 100"
proof (cases v)
  case (Finite r)
  show ?thesis
  proof (cases "r < 0 \<or> 100 < r")
    case True
    then show ?thesis using Finite by (auto intro: exI [of _ 0] exI [of _ 100])
  next
    case False
    then have "0 \<le> r" "r \<le> 100" by simp_all
    from Math_round_range [OF this] False Finite show ?thesis by auto
  qed
qed (auto intro: exI [of _ 0] exI [of _ 100])





lemma infer_winner_analysis: "analysis (infer_winner final) = analysis final"
  by (simp add: infer_winner_def split: list.splits)


subsection \<open>The head of a stable sort\<close>

lemma hd_insort_key:
  "hd (insort_key f x ys) = (if ys = [] \<or> f x \<le> f (hd ys) then x else hd ys)"
  by (cases ys) simp_all

lemma sort_key_eq_Nil: "sort_key f xs = [] \<longleftrightarrow> xs = []"
  by (metis length_0_conv length_sort)

lemma hd_sort_key_first_least:
  fixes f :: "'a \<Rightarrow> 'b::linorder"
  assumes "xs \<noteq> []"
  shows "\<exists>i<length xs. hd (sort_key f xs) = xs ! i \<and>
           (\<forall>j<length xs. f (xs ! i) \<le> f (xs ! j)) \<and> (\<forall>j<i. f (xs ! i) < f (xs ! j))"
  using assms
proof (induction xs)
  case Nil
  then show ?case by simp
next
  case (Cons x xs)
  show ?case
  proof (cases "xs = []")
    case True
    then show ?thesis by simp
  next
    case False
    from Cons.IH [OF False] obtain i
      where i: "i < length xs" "hd (sort_key f xs) = xs ! i"
        and least: "\<forall>j<length xs. f (xs ! i) \<le> f (xs ! j)"
        and first: "\<forall>j<i. f (xs ! i) < f (xs ! j)"
      by blast
    have ne: "sort_key f xs \<noteq> []" using False by (simp add: sort_key_eq_Nil)
    show ?thesis
    proof (cases "f x \<le> f (xs ! i)")
      case True
      have "hd (sort_key f (x # xs)) = (x # xs) ! 0"
        using True i(2) ne by (simp add: hd_insort_key)
      moreover have "\<forall>j<length (x # xs). f ((x # xs) ! 0) \<le> f ((x # xs) ! j)"
      proof (intro allI impI)
        fix j assume "j < length (x # xs)"
        then show "f ((x # xs) ! 0) \<le> f ((x # xs) ! j)"
          using True least by (cases j) (auto intro: order_trans)
      qed
      ultimately show ?thesis by (intro exI [of _ 0]) simp
    next
      case False
      then have lt: "f (xs ! i) < f x" by simp
      have "hd (sort_key f (x # xs)) = (x # xs) ! Suc i"
        using False i(2) ne by (simp add: hd_insort_key)
      moreover have "\<forall>j<length (x # xs). f ((x # xs) ! Suc i) \<le> f ((x # xs) ! j)"
      proof (intro allI impI)
        fix j assume "j < length (x # xs)"
        then show "f ((x # xs) ! Suc i) \<le> f ((x # xs) ! j)"
          using lt least by (cases j) auto
      qed
      moreover have "\<forall>j<Suc i. f ((x # xs) ! Suc i) < f ((x # xs) ! j)"
      proof (intro allI impI)
        fix j assume "j < Suc i"
        then show "f ((x # xs) ! Suc i) < f ((x # xs) ! j)"
          using lt first by (cases j) auto
      qed
      ultimately show ?thesis using i(1) by (intro exI [of _ "Suc i"]) simp
    qed
  qed
qed

subsection \<open>Winner inference\<close>

lemma foldl_add_scores: "foldl (\<lambda>s c. s + score c) a cs = a + sum_list (map score cs)"
  by (induction cs arbitrary: a) simp_all

lemma avg_mean:
  "avg opt =
     (if criteriaAnalysis opt = [] then 0
      else sum_list (map score (criteriaAnalysis opt)) / real (length (criteriaAnalysis opt)))"
  by (simp add: avg_def foldl_add_scores)

lemma infer_winner_selects:
  assumes "\<not> truthy (winnerId final)" "1 < length (analysis final)"
  shows "\<exists>i<length (analysis final).
           infer_winner final = final\<lparr>winnerId := JStr (optionId (analysis final ! i))\<rparr> \<and>
           (\<forall>j<length (analysis final). avg (analysis final ! j) \<le> avg (analysis final ! i)) \<and>
           (\<forall>j<i. avg (analysis final ! j) < avg (analysis final ! i))"
proof -
  let ?xs = "map (\<lambda>opt. (optionId opt, avg opt)) (analysis final)"
  let ?f = "\<lambda>c :: jsstring \<times> real. - snd c"
  from assms(2) have ne: "?xs \<noteq> []" by auto
  from hd_sort_key_first_least [OF ne, of ?f] obtain i
    where i: "i < length ?xs" "hd (sort_key ?f ?xs) = ?xs ! i"
      and least: "\<forall>j<length ?xs. ?f (?xs ! i) \<le> ?f (?xs ! j)"
      and first: "\<forall>j<i. ?f (?xs ! i) < ?f (?xs ! j)"
    by blast
  from ne obtain c cs where s: "sort_key ?f ?xs = c # cs"
    by (cases "sort_key ?f ?xs") (simp_all add: sort_key_eq_Nil)
  with i(2) have c: "c = ?xs ! i" by simp
  from i(1) have il: "i < length (analysis final)" by simp
  have "infer_winner final = final\<lparr>winnerId := JStr (optionId (analysis final ! i))\<rparr>"
    using assms s c il by (simp add: infer_winner_def)
  moreover have "\<forall>j<length (analysis final). avg (analysis final ! j) \<le> avg (analysis final ! i)"
    using least il by simp
  moreover have "\<forall>j<i. avg (analysis final ! j) < avg (analysis final ! i)"
    using first il by simp
  ultimately show ?thesis using il by blast
qed

lemma infer_winner_few: "length (analysis final) \<le> 1 \<Longrightarrow> infer_winner final = final"
  by (simp add: infer_winner_def)

lemma infer_winner_truthy: "truthy (winnerId final) \<Longrightarrow> infer_winner final = final"
  by (simp add: infer_winner_def)

lemma infer_winner_fields:
  "verdict (infer_winner final) = verdict final"
  "recommendation (infer_winner final) = recommendation final"
  "summary (infer_winner final) = summary final"
  "topRisks (infer_winner final) = topRisks final"
  "nextSteps (infer_winner final) = nextSteps final"
  by (simp_all add: infer_winner_def split: list.splits)

lemma tie_example_avgs:
  "avg (analysis tie_example ! 0) = 72" "avg (analysis tie_example ! 1) = 90"
  "avg (analysis tie_example ! 2) = 90"
  by (simp_all add: tie_example_def scored_def avg_def)

lemma tie_example_winner:
  "infer_winner tie_example = tie_example\<lparr>winnerId := JStr (js ''o2'')\<rparr>"
  by (simp add: infer_winner_def tie_example_def scored_def avg_def)

subsection \<open>What the normalizer can throw\<close>

lemma and_then_Inl: "and_then m f = Inl e \<longleftrightarrow> m = Inl e \<or> (\<exists>x. m = Inr x \<and> f x = Inl e)"
  by (cases m) simp_all

lemma get_prop_error: "get_prop v k = Inl e \<Longrightarrow> e = TypeError"
  by (cases v) simp_all

lemma coalesce_error: "coalesce v ks d = Inl e \<Longrightarrow> e = TypeError"
  by (induction ks) (auto split: sum.splits if_splits dest: get_prop_error)

lemma to_string_error:
  "to_string rt v = Inl e \<Longrightarrow> e = TypeError"
  "join_elems rt xs = Inl e \<Longrightarrow> e = TypeError"
  by (induction rt v and rt xs rule: to_string_join_elems.induct)
     (auto split: sum.splits if_splits)

lemma to_number_error: "to_number rt v = Inl e \<Longrightarrow> e = TypeError"
  by (cases v) (auto split: sum.splits if_splits dest: to_string_error)

lemma clampScore_error: "clampScore rt v = Inl e \<Longrightarrow> e = TypeError"
  by (auto simp: clampScore_def split: sum.splits dest: to_number_error)

lemma map_throwing_error:
  assumes "\<And>x e. f x = Inl e \<Longrightarrow> e = E" "map_throwing f xs = Inl e"
  shows "e = E"
  using assms(2)
  by (induction xs arbitrary: e) (auto simp: and_then_Inl dest: assms(1))

lemma normalize_criterion_error: "normalize_criterion rt ca = Inl e \<Longrightarrow> e = TypeError"
  by (auto simp: normalize_criterion_def and_then_Inl simp del: coalesce.simps split: if_splits
      dest: coalesce_error clampScore_error to_string_error get_prop_error)

lemma string_list_error: "string_list rt a k1 k2 = Inl e \<Longrightarrow> e = TypeError"
  by (auto simp: string_list_def and_then_Inl split: if_splits
      dest: get_prop_error map_throwing_error [where f = "to_string rt", rotated] to_string_error)

lemma normalize_option_error: "normalize_option rt a = Inl e \<Longrightarrow> e = TypeError"
  by (auto simp: normalize_option_def and_then_Inl simp del: coalesce.simps
      dest: coalesce_error string_list_error to_string_error
        map_throwing_error [where f = "normalize_criterion rt", rotated] normalize_criterion_error)

lemma clampScore_number: "clampScore rt (JNum n) = Inr (clamp_number n)"
  by (cases n) (simp_all add: clampScore_def Math_round_def)

lemma reclamp_criterion_total: "\<exists>ca'. reclamp_criterion rt ca = Inr ca'"
  by (simp add: reclamp_criterion_def clampScore_number split: option.splits)

lemma map_throwing_total:
  assumes "\<And>x. \<exists>y. f x = Inr y"
  shows "\<exists>ys. map_throwing f xs = Inr ys"
proof (induction xs)
  case Nil
  show ?case by simp
next
  case (Cons x xs)
  from assms [of x] obtain y where "f x = Inr y" by blast
  with Cons show ?case by auto
qed

lemma reclamp_option_total: "\<exists>opt'. reclamp_option rt opt = Inr opt'"
  using map_throwing_total [of "reclamp_criterion rt" "criteriaAnalysis opt", OF reclamp_criterion_total]
  by (auto simp: reclamp_option_def)

lemma reclamp_options_no_error: "map_throwing (reclamp_option rt) xs \<noteq> Inl e"
  using map_throwing_total [of "reclamp_option rt" xs, OF reclamp_option_total] by auto

lemma normalize_error: "normalize rt v = Inl e \<Longrightarrow> e = TypeError"
  by (auto simp: normalize_def and_then_Inl reclamp_options_no_error simp del: coalesce.simps
      dest: coalesce_error
        map_throwing_error [where f = "normalize_option rt", rotated] normalize_option_error)

lemma normalize_and_infer_error: "normalize_and_infer rt v = Inl e \<Longrightarrow> e = TypeError"
  by (auto simp: normalize_and_infer_def and_then_Inl dest: normalize_error)

subsection \<open>Trailing commas and the brace block\<close>

lemma not_space_brace [simp]: "\<not> is_space 125" "\<not> is_space 93" "\<not> is_space 123" "\<not> is_space 96"
  by (simp_all add: is_space_def)

lemma strip_comma_before_no_comma: "44 \<notin> set xs \<Longrightarrow> strip_comma_before c xs = xs"
  by (induction xs) simp_all

lemma strip_comma_before_append:
  "44 \<notin> set xs \<Longrightarrow> strip_comma_before c (xs @ ys) = xs @ strip_comma_before c ys"
  by (induction xs) simp_all

lemma dropWhile_spaces: "\<forall>w\<in>set ws. is_space w \<Longrightarrow> \<not> is_space c \<Longrightarrow> dropWhile is_space (ws @ c # ys) = c # ys"
  by (simp add: dropWhile_append2)

lemma strip_comma_before_match:
  assumes "\<forall>w\<in>set ws. is_space w" "\<not> is_space c"
  shows "strip_comma_before c (44 # ws @ c # ys) = c # strip_comma_before c ys"
  by (simp add: dropWhile_spaces [OF assms])

lemma strip_trailing_comma:
  assumes "c = 125 \<or> c = 93" "44 \<notin> set xs" "\<forall>w\<in>set ws. is_space w"
  shows "strip_comma_before c (xs @ 44 # ws @ c # ys) = xs @ c # strip_comma_before c ys"
proof -
  from assms(1) have "\<not> is_space c" by auto
  from strip_comma_before_match [OF assms(3) this] assms(2) show ?thesis
    by (simp add: strip_comma_before_append)
qed

lemma dropWhile_until:
  "c \<notin> set xs \<Longrightarrow> dropWhile (\<lambda>x. x \<noteq> c) (xs @ c # ys) = c # ys"
  by (induction xs) auto

lemma takeWhile_not_mem: "c \<notin> set (takeWhile (\<lambda>x. x \<noteq> c) xs)"
  by (induction xs) auto

lemma dropWhile_neq_Nil: "c \<in> set xs \<Longrightarrow> dropWhile (\<lambda>x. x \<noteq> c) xs \<noteq> []"
  by (induction xs) auto

lemma hd_dropWhile_neq: "dropWhile (\<lambda>x. x \<noteq> c) xs \<noteq> [] \<Longrightarrow> hd (dropWhile (\<lambda>x. x \<noteq> c) xs) = c"
  by (induction xs) auto

lemma brace_block_found:
  assumes "123 \<notin> set pre" "125 \<notin> set post"
  shows "brace_block (pre @ 123 # mid @ 125 # post) = Some (123 # mid @ [125])"
proof -
  have t: "dropWhile (\<lambda>c. c \<noteq> 123) (pre @ 123 # mid @ 125 # post) = 123 # mid @ 125 # post"
    using assms(1) by (rule dropWhile_until)
  have "125 \<notin> set (rev post)" using assms(2) by simp
  then have "dropWhile (\<lambda>c. c \<noteq> 125) (rev post @ 125 # rev mid @ [123]) = 125 # rev mid @ [123]"
    by (rule dropWhile_until)
  then show ?thesis by (simp add: brace_block_def t)
qed

lemma dropWhile_keeps:
  "\<not> P y \<Longrightarrow> \<exists>zs. dropWhile P (xs @ y # ys) = zs @ y # ys"
proof (induction xs)
  case Nil
  then show ?case by (auto intro: exI [of _ "[]"])
next
  case (Cons x xs)
  then show ?case by (auto intro: exI [of _ "x # xs"])
qed

lemma brace_block_Some:
  assumes "brace_block s = Some b"
  shows "\<exists>pre mid post. s = pre @ 123 # mid @ 125 # post \<and> 123 \<notin> set pre \<and> 125 \<notin> set post \<and> b = 123 # mid @ [125]"
proof -
  define pre where "pre = takeWhile (\<lambda>c. c \<noteq> 123) s"
  define t where "t = dropWhile (\<lambda>c. c \<noteq> 123) s"
  define rpost where "rpost = takeWhile (\<lambda>c. c \<noteq> 125) (rev t)"
  define u where "u = dropWhile (\<lambda>c. c \<noteq> 125) (rev t)"
  have s: "s = pre @ t" by (simp add: pre_def t_def)
  have rt: "rev t = rpost @ u" by (simp add: rpost_def u_def)
  from assms have b: "b = rev u" and ne: "u \<noteq> []"
    by (auto simp: brace_block_def Let_def t_def u_def split: if_splits)
  from ne have hu: "hd u = 125" unfolding u_def by (rule hd_dropWhile_neq)
  from rt have "rev (rev t) = rev (rpost @ u)" by simp
  then have t: "t = rev u @ rev rpost" by simp
  with ne have tne: "t \<noteq> []" by simp
  then have ht: "hd t = 123" unfolding t_def by (rule hd_dropWhile_neq)
  from t ne have hb: "hd (rev u) = 123" using ht by (cases "rev u") auto
  from ne hu have lb: "last (rev u) = 125" by (simp add: last_rev)
  from ne obtain x xs where x: "rev u = x # xs" by (cases "rev u") auto
  with hb have x1: "x = 123" by simp
  have "xs \<noteq> []" using x lb x1 by (cases xs) auto
  then obtain mid y where m: "xs = mid @ [y]" by (cases xs rule: rev_cases) auto
  with x lb have y: "y = 125" by simp
  have p1: "123 \<notin> set pre" unfolding pre_def by (rule takeWhile_not_mem)
  have "125 \<notin> set rpost" unfolding rpost_def by (rule takeWhile_not_mem)
  then have p2: "125 \<notin> set (rev rpost)" by simp
  from s t x x1 m y have "s = pre @ 123 # mid @ 125 # rev rpost" by simp
  with p1 p2 b x x1 m y show ?thesis by blast
qed

lemma brace_block_None:
  "brace_block s = None \<longleftrightarrow> \<not> (\<exists>pre mid post. s = pre @ 123 # mid @ 125 # post)"
proof
  assume n: "brace_block s = None"
  show "\<not> (\<exists>pre mid post. s = pre @ 123 # mid @ 125 # post)"
  proof
    assume "\<exists>pre mid post. s = pre @ 123 # mid @ 125 # post"
    then obtain pre mid post where s: "s = pre @ 123 # mid @ 125 # post" by blast
    from dropWhile_keeps [of "\<lambda>c. c \<noteq> 123" 123 pre "mid @ 125 # post"]
    obtain zs where "dropWhile (\<lambda>c. c \<noteq> 123) s = zs @ 123 # mid @ 125 # post"
      using s by auto
    then have "125 \<in> set (rev (dropWhile (\<lambda>c. c \<noteq> 123) s))" by simp
    then have "dropWhile (\<lambda>c. c \<noteq> 125) (rev (dropWhile (\<lambda>c. c \<noteq> 123) s)) \<noteq> []"
      by (rule dropWhile_neq_Nil)
    with n show False by (auto simp: brace_block_def Let_def split: if_splits)
  qed
next
  assume "\<not> (\<exists>pre mid post. s = pre @ 123 # mid @ 125 # post)"
  then show "brace_block s = None"
    using brace_block_Some [of s] by (cases "brace_block s") auto
qed

subsection \<open>The lenient parser\<close>

lemma safeParseJSON_fails:
  "(\<exists>e. safeParseJSON rt text = Inl e) \<longleftrightarrow>
     JSON_parse rt text = None \<and> JSON_parse rt (cleaned text) = None \<and>
     (\<forall>m. brace_block (cleaned text) = Some m \<longrightarrow> JSON_parse rt m = None)"
  by (auto simp: safeParseJSON_def split: option.splits)

lemma analyze_text_InvalidJson:
  assumes "jsonCandidate rawText = Some text" "text \<noteq> []"
  shows "analyze_text rt rawText = Inl InvalidJson \<longleftrightarrow> (\<exists>e. safeParseJSON rt text = Inl e)"
proof (cases "safeParseJSON rt text")
  case (Inl e)
  with assms show ?thesis by (simp add: analyze_text_def)
next
  case (Inr v)
  have "normalize_and_infer rt v \<noteq> Inl InvalidJson"
    using normalize_and_infer_error [of rt v InvalidJson] by auto
  with Inr assms show ?thesis by (simp add: analyze_text_def)
qed

subsection \<open>What the pipeline can throw\<close>

lemma stringify_value_error: "stringify_value rt v = Inl e \<Longrightarrow> e = ExtractFailed"
  by (auto simp: stringify_value_def split: stringified.splits)

lemma output_text_error: "output_text rt v = Inl e \<Longrightarrow> e = ExtractFailed"
  by (auto simp: output_text_def split: if_splits dest: stringify_value_error)

lemma join_lines_error: "join_lines rt xs = Inl e \<Longrightarrow> e = ExtractFailed"
  by (induction xs arbitrary: e) (auto simp: and_then_Inl split: if_splits option.splits)

lemma inline_extract_error: "inline_extract rt response = Inl e \<Longrightarrow> e = ExtractFailed"
  by (auto simp: inline_extract_def and_then_Inl split: if_splits resp.splits option.splits
      dest: stringify_value_error join_lines_error
        map_throwing_error [where f = "output_text rt", rotated] output_text_error)

lemma analyze_text_error:
  "analyze_text rt rawText = Inl e \<Longrightarrow> e = NoJsonFound \<or> e = InvalidJson \<or> e = TypeError"
  by (auto simp: analyze_text_def split: option.splits if_splits sum.splits
      dest: normalize_and_infer_error)

lemma post_process_error:
  "post_process rt response = Inl e \<Longrightarrow>
     e = ExtractFailed \<or> e = NoJsonFound \<or> e = InvalidJson \<or> e = TypeError"
proof -
  assume a: "post_process rt response = Inl e"
  show ?thesis
  proof (cases "inline_extract rt response")
    case (Inl e')
    with a have "e = e'" by (simp add: post_process_def)
    with Inl inline_extract_error show ?thesis by blast
  next
    case (Inr rawText)
    show ?thesis
    proof (cases rawText)
      case (RStr s)
      with a Inr have "analyze_text rt s = Inl e" by (simp add: post_process_def)
      from analyze_text_error [OF this] show ?thesis by blast
    qed (use a Inr in \<open>simp_all add: post_process_def\<close>)
  qed
qed

subsection \<open>The round trip of a conforming payload\<close>

lemma Math_round_int: "s \<in> \<int> \<Longrightarrow> Math_round s = s"
  by (auto simp: Math_round_def Ints_def)

lemma clamp_number_conforming: "conforming_score s \<Longrightarrow> clamp_number (Finite s) = s"
  by (auto simp: conforming_score_def Math_round_int)

lemma clamp_number_conforms: "conforming_score (clamp_number n)"
  using clamp_number_range [of n] by (auto simp: conforming_score_def)

lemma clamp_number_idem: "clamp_number (Finite (clamp_number n)) = clamp_number n"
  by (simp add: clamp_number_conforming clamp_number_conforms del: clamp_number.simps)

lemma is_string_not_nullish: "is_string v \<Longrightarrow> \<not> nullish v"
  by (cases v) simp_all

lemma normalize_criterion_encode:
  assumes "is_string (criteriaId ca)" "conforming_score (score ca)"
  shows "normalize_criterion rt (encode_criterion ca) = Inr (clamp_confidence ca)"
proof (cases "confidence ca")
  case None
  with assms show ?thesis
    by (cases ca)
       (simp add: normalize_criterion_def encode_criterion_def clamp_confidence_def
          is_string_not_nullish clampScore_number clamp_number_conforming
          del: clamp_number.simps)
next
  case (Some c)
  with assms show ?thesis
    by (cases ca)
       (simp add: normalize_criterion_def encode_criterion_def clamp_confidence_def
          is_string_not_nullish clampScore_number clamp_number_conforming
          del: clamp_number.simps)
qed

lemma map_throwing_map:
  "(\<And>x. x \<in> set xs \<Longrightarrow> f (g x) = Inr (h x)) \<Longrightarrow> map_throwing f (map g xs) = Inr (map h xs)"
  by (induction xs) simp_all

lemma to_strings: "map_throwing (to_string rt) (map JStr ss) = Inr ss"
  using map_throwing_map [of ss "to_string rt" JStr "\<lambda>s. s"] by simp

lemma normalize_option_encode:
  assumes "list_all (\<lambda>ca. is_string (criteriaId ca) \<and> conforming_score (score ca)) (criteriaAnalysis opt)"
  shows "normalize_option rt (encode_option opt) = Inr (clamp_confidences opt)"
proof -
  have "map_throwing (normalize_criterion rt) (map encode_criterion (criteriaAnalysis opt)) =
          Inr (map clamp_confidence (criteriaAnalysis opt))"
    using assms by (intro map_throwing_map normalize_criterion_encode) (auto simp: list_all_iff)
  then show ?thesis
    by (cases opt)
       (simp add: normalize_option_def encode_option_def clamp_confidences_def string_list_def
          to_strings)
qed

lemma reclamp_criterion_clamped:
  assumes "is_string (criteriaId ca)" "conforming_score (score ca)"
  shows "reclamp_criterion rt (clamp_confidence ca) = Inr (clamp_confidence ca)"
  using assms
  by (cases ca; cases "confidence ca")
     (simp_all add: reclamp_criterion_def clamp_confidence_def clampScore_number
        clamp_number_conforming clamp_number_idem is_string_not_nullish
        del: clamp_number.simps)

lemma reclamp_option_clamped:
  assumes "list_all (\<lambda>ca. is_string (criteriaId ca) \<and> conforming_score (score ca)) (criteriaAnalysis opt)"
  shows "reclamp_option rt (clamp_confidences opt) = Inr (clamp_confidences opt)"
proof -
  have "map_throwing (reclamp_criterion rt) (map clamp_confidence (criteriaAnalysis opt)) =
          Inr (map clamp_confidence (criteriaAnalysis opt))"
    using assms by (intro map_throwing_map reclamp_criterion_clamped) (auto simp: list_all_iff)
  then show ?thesis
    by (cases opt) (simp add: reclamp_option_def clamp_confidences_def)
qed

lemma normalize_encode:
  assumes "conforms r"
  shows "normalize rt (encode_result r) =
           Inr \<lparr>analysis = map clamp_confidences (analysis r), verdict = verdict r,
                winnerId = winnerId r, recommendation = recommendation r,
                summary = JUndefined, topRisks = JUndefined, nextSteps = JUndefined\<rparr>"
proof -
  from assms have ok: "\<And>opt. opt \<in> set (analysis r) \<Longrightarrow>
      list_all (\<lambda>ca. is_string (criteriaId ca) \<and> conforming_score (score ca)) (criteriaAnalysis opt)"
    by (simp add: conforms_def list_all_iff)
  have 1: "map_throwing (normalize_option rt) (map encode_option (analysis r)) =
          Inr (map clamp_confidences (analysis r))"
    using ok by (intro map_throwing_map normalize_option_encode)
  have 2: "map_throwing (reclamp_option rt) (map clamp_confidences (analysis r)) =
          Inr (map clamp_confidences (analysis r))"
    using map_throwing_map [of "analysis r" "reclamp_option rt" clamp_confidences clamp_confidences]
      reclamp_option_clamped ok by simp
  from assms have s: "\<not> nullish (verdict r)" "\<not> nullish (winnerId r)" "\<not> nullish (recommendation r)"
    by (simp_all add: conforms_def is_string_not_nullish)
  show ?thesis
    using s by (simp add: normalize_def encode_result_def ensureAnalysisArray_def 1 2)
qed

lemma strip_fences_braces: "strip_fences (123 # mid @ [125]) = 123 # mid @ [125]"
  by (simp add: strip_fences_def strip_json_fence_def strip_open_fence_def
      strip_close_fence_def fence_def trim_def)

subsection \<open>The marker and the fences\<close>

lemma indexOf_Some:
  "indexOf m s = Some i \<Longrightarrow>
     i \<le> length s \<and> prefix m (drop i s) \<and> (\<forall>j<i. \<not> prefix m (drop j s))"
proof (induction s arbitrary: i)
  case Nil
  then show ?case by (auto split: if_splits)
next
  case (Cons x xs)
  show ?case
  proof (cases "prefix m (x # xs)")
    case True
    with Cons.prems show ?thesis by simp
  next
    case False
    with Cons.prems obtain k where k: "indexOf m xs = Some k" "i = Suc k" by auto
    from Cons.IH [OF k(1)] have ih: "k \<le> length xs" "prefix m (drop k xs)"
      "\<forall>j<k. \<not> prefix m (drop j xs)" by simp_all
    have "\<not> prefix m (drop j (x # xs))" if "j < i" for j
      using that False ih(3) k(2) by (cases j) auto
    with ih k(2) show ?thesis by simp
  qed
qed

lemma indexOf_None:
  "indexOf m s = None \<Longrightarrow> \<not> prefix m (drop j s)"
proof (induction s arbitrary: j)
  case Nil
  then show ?case by (auto split: if_splits)
next
  case (Cons x xs)
  from Cons.prems have np: "\<not> prefix m (x # xs)" and n: "indexOf m xs = None"
    by (auto split: if_splits)
  show ?case using np Cons.IH [OF n] by (cases j) auto
qed

lemma indexOf_occurs:
  "indexOf m s \<noteq> None \<longleftrightarrow> (\<exists>pre post. s = pre @ m @ post)"
proof
  assume "indexOf m s \<noteq> None"
  then obtain i where i: "indexOf m s = Some i" by auto
  from indexOf_Some [OF i] obtain post where "drop i s = m @ post"
    by (auto simp: prefix_def)
  then have "s = take i s @ m @ post" by (metis append_take_drop_id)
  then show "\<exists>pre post. s = pre @ m @ post" by blast
next
  assume "\<exists>pre post. s = pre @ m @ post"
  then obtain pre post where s: "s = pre @ m @ post" by blast
  then have "prefix m (drop (length pre) s)" by simp
  with indexOf_None [of m s "length pre"] show "indexOf m s \<noteq> None" by auto
qed

lemma indexOf_split:
  assumes "indexOf m s = Some i"
  shows "s = take i s @ m @ drop (i + length m) s"
proof -
  from indexOf_Some [OF assms] obtain post where p: "drop i s = m @ post"
    by (auto simp: prefix_def)
  have "drop (i + length m) s = drop (length m) (drop i s)" by (simp add: add.commute)
  also have "\<dots> = post" using p by simp
  finally have "drop i s = m @ drop (i + length m) s" using p by simp
  then show ?thesis by (metis append_take_drop_id)
qed

lemma trim_spaces:
  assumes "\<forall>w\<in>set a. is_space w" "\<forall>w\<in>set b. is_space w"
    "\<not> is_space x" "\<not> is_space y"
  shows "trim (a @ x # xs @ y # b) = x # xs @ [y]"
proof -
  have 1: "dropWhile is_space (a @ x # xs @ y # b) = x # xs @ y # b"
    using assms(1,3) by (simp add: dropWhile_append2)
  have 2: "dropWhile is_space (rev b @ y # rev xs @ [x]) = y # rev xs @ [x]"
    using assms(2,4) by (intro dropWhile_spaces) simp_all
  show ?thesis by (simp add: trim_def 1 2)
qed

lemma trim_spaces_single:
  assumes "\<forall>w\<in>set a. is_space w" "\<forall>w\<in>set b. is_space w" "\<not> is_space x"
  shows "trim (a @ x # b) = [x]"
proof -
  have 1: "dropWhile is_space (a @ x # b) = x # b"
    using assms(1,3) by (simp add: dropWhile_append2)
  have 2: "dropWhile is_space (rev b @ [x]) = [x]"
    using assms(2,3) by (intro dropWhile_spaces) simp_all
  show ?thesis by (simp add: trim_def 1 2)
qed

lemma json_tag_length: "json_tag t \<Longrightarrow> length t = 4"
  by (auto simp: json_tag_def split: list.splits)

lemma json_tag_hd: "json_tag t \<Longrightarrow> hd t = 106 \<or> hd t = 74"
  by (auto simp: json_tag_def split: list.splits)

lemma not_json_tag_brace:
  assumes "\<forall>w\<in>set ws. is_space w"
  shows "\<not> json_tag (take 4 (ws @ 123 # rest))"
proof
  assume j: "json_tag (take 4 (ws @ 123 # rest))"
  from json_tag_hd [OF j] have h: "hd (ws @ 123 # rest) = 106 \<or> hd (ws @ 123 # rest) = 74"
    by (cases ws) auto
  show False
  proof (cases ws)
    case Nil
    with h show False by simp
  next
    case (Cons w ws')
    with assms have "is_space w" by simp
    moreover from h Cons have "w = 106 \<or> w = 74" by simp
    ultimately show False by (auto simp: is_space_def)
  qed
qed

lemma strip_fences_fenced:
  assumes ws: "\<forall>w\<in>set ws1. is_space w" "\<forall>w\<in>set ws2. is_space w" "\<forall>w\<in>set ws3. is_space w"
    and tag: "tag = [] \<or> json_tag tag"
  shows "strip_fences (fence @ tag @ ws1 @ 123 # mid @ [125] @ ws2 @ fence @ ws3) =
           123 # mid @ [125]"
proof -
  let ?body = "123 # mid @ [125]"
  let ?Y = "?body @ ws2 @ fence @ ws3"
  have open_done: "strip_open_fence (strip_json_fence (fence @ tag @ ws1 @ ?Y)) = ?Y"
  proof (cases "tag = []")
    case True
    have "\<not> json_tag (take 4 (ws1 @ 123 # (mid @ [125] @ ws2 @ fence @ ws3)))"
      using ws(1) by (rule not_json_tag_brace)
    then have "strip_json_fence (fence @ tag @ ws1 @ ?Y) = fence @ tag @ ws1 @ ?Y"
      using True by (simp add: strip_json_fence_def fence_def)
    moreover have "dropWhile is_space (ws1 @ ?Y) = ?Y"
      using ws(1) by (simp add: dropWhile_append2)
    ultimately show ?thesis using True by (simp add: strip_open_fence_def fence_def)
  next
    case False
    with tag have j: "json_tag tag" by simp
    then have l: "length tag = 4" by (rule json_tag_length)
    have d: "dropWhile is_space (ws1 @ ?Y) = ?Y"
      using ws(1) by (simp add: dropWhile_append2)
    have "strip_json_fence (fence @ tag @ ws1 @ ?Y) = ?Y"
      using j l d by (simp add: strip_json_fence_def fence_def)
    then show ?thesis by (simp add: strip_open_fence_def fence_def)
  qed
  have "dropWhile is_space (rev ws3 @ 96 # ([96, 96] @ rev ws2 @ rev ?body)) =
          96 # ([96, 96] @ rev ws2 @ rev ?body)"
    using ws(3) by (intro dropWhile_spaces) simp_all
  then have close_done: "strip_close_fence ?Y = ?body @ ws2"
    by (simp add: strip_close_fence_def Let_def fence_def)
  have "trim (?body @ ws2) = ?body"
    using trim_spaces [of "[]" ws2 123 125 mid] ws(2) by simp
  with open_done close_done show ?thesis by (simp add: strip_fences_def)
qed

lemma candidate_fenced:
  assumes ws: "\<forall>w\<in>set ws0. is_space w" "\<forall>w\<in>set ws1. is_space w" "\<forall>w\<in>set ws2. is_space w"
    "\<forall>w\<in>set ws3. is_space w"
    and tag: "tag = [] \<or> json_tag tag"
  shows "strip_fences (trim (ws0 @ fence @ tag @ ws1 @ 123 # mid @ [125] @ ws2 @ fence @ ws3)) =
           123 # mid @ [125]"
proof -
  let ?inner = "tag @ ws1 @ 123 # mid @ [125] @ ws2 @ [96, 96]"
  have "trim (ws0 @ 96 # ([96, 96] @ ?inner) @ 96 # ws3) = 96 # ([96, 96] @ ?inner) @ [96]"
    using ws(1,4) by (intro trim_spaces) simp_all
  then have "trim (ws0 @ fence @ tag @ ws1 @ 123 # mid @ [125] @ ws2 @ fence @ ws3) =
               fence @ tag @ ws1 @ 123 # mid @ [125] @ ws2 @ fence @ []"
    by (simp add: fence_def)
  with strip_fences_fenced [OF ws(2,3) _ tag, of "[]" mid] show ?thesis by simp
qed

lemma candidate_unfenced:
  assumes "\<forall>w\<in>set ws0. is_space w" "\<forall>w\<in>set ws3. is_space w"
  shows "strip_fences (trim (ws0 @ 123 # mid @ [125] @ ws3)) = 123 # mid @ [125]"
  using trim_spaces [OF assms, of 123 125 mid] by (simp add: strip_fences_braces)

lemma analyze_text_NoJsonFound:
  "analyze_text rt rawText = Inl NoJsonFound \<longleftrightarrow>
     jsonCandidate rawText = None \<or> jsonCandidate rawText = Some []"
proof (cases "jsonCandidate rawText")
  case None
  then show ?thesis by (simp add: analyze_text_def)
next
  case (Some c)
  show ?thesis
  proof (cases "c = []")
    case True
    with Some show ?thesis by (simp add: analyze_text_def)
  next
    case False
    have "normalize_and_infer rt v \<noteq> Inl NoJsonFound" for v
      using normalize_and_infer_error [of rt v NoJsonFound] by auto
    with Some False show ?thesis
      by (auto simp: analyze_text_def split: sum.splits)
  qed
qed

lemma gemini_cleaned_marker:
  "indexOf marker rawText = Some i \<Longrightarrow>
     gemini_cleaned rawText = Inr (strip_fences (trim (drop (i + length marker) rawText)))"
  by (simp add: gemini_cleaned_def)

lemma gemini_cleaned_block:
  assumes "indexOf marker rawText = None" "brace_block rawText = Some b"
  shows "gemini_cleaned rawText = Inr b"
proof -
  from brace_block_Some [OF assms(2)] obtain mid where "b = 123 # mid @ [125]" by blast
  with assms show ?thesis by (simp add: gemini_cleaned_def strip_fences_braces)
qed

lemma gemini_parse_NoJsonFound:
  "gemini_parse rt rawText = Inl NoJsonFound \<longleftrightarrow>
     indexOf marker rawText = None \<and> brace_block rawText = None"
  by (auto simp: gemini_parse_def gemini_cleaned_def and_then_Inl split: option.splits)

lemma gemini_parse_empty:
  assumes "gemini_cleaned rawText = Inr []" "JSON_parse rt [] = None"
  shows "gemini_parse rt rawText = Inl InvalidJson"
  using assms by (simp add: gemini_parse_def)

subsection \<open>Text extraction\<close>

lemma text_accessor_returns:
  "truthy_r response \<Longrightarrow> prop_r response (js ''text'') = RFun (Some t) \<Longrightarrow> nonempty_string t \<Longrightarrow>
     extractRawText rt response = Inr t"
  by (simp add: extractRawText_def text_accessor_def)

lemma text_accessor_throws:
  "prop_r response (js ''text'') = RFun None \<Longrightarrow>
     text_accessor response = None \<and> text_field response = None"
  by (simp add: text_accessor_def text_field_def)

lemma text_field_wins:
  "truthy_r response \<Longrightarrow> nonempty_string (prop_r response (js ''text'')) \<Longrightarrow>
     extractRawText rt response = Inr (prop_r response (js ''text''))"
  by (cases "prop_r response (js ''text'')")
     (simp_all add: extractRawText_def text_accessor_def text_field_def)

lemma extractRawText_raises:
  "(\<exists>e. extractRawText rt response = Inl e) \<longleftrightarrow>
     text_accessor response = None \<and> text_field response = None \<and>
     outputText_field response = None \<and> outputs_scan rt response = None \<and>
     serialization rt response = None \<and>
     String_r rt (if nullish_r response then RStr [] else response) = None"
  by (auto simp: extractRawText_def last_resort_def split: option.splits)

lemma nullish_strategies:
  "nullish_r response \<Longrightarrow>
     text_accessor response = None \<and> text_field response = None \<and>
     outputText_field response = None \<and> outputs_scan rt response = None"
  by (cases response)
     (simp_all add: text_accessor_def text_field_def outputText_field_def outputs_scan_def)

lemma extractRawText_nullish:
  "nullish_r response \<Longrightarrow> serialization rt response = None \<Longrightarrow>
     extractRawText rt response = Inr (RStr [])"
  using nullish_strategies [of response rt]
  by (simp add: extractRawText_def last_resort_def String_r_def)

lemma inline_accessor_throws:
  "\<not> nullish_r response \<Longrightarrow> \<not> truthy_r (prop_r response (js ''value'')) \<Longrightarrow>
     prop_r response (js ''text'') = RFun None \<Longrightarrow>
     inline_extract rt response = Inl ExtractFailed"
  by (simp add: inline_extract_def)

lemma inline_value_first:
  "\<not> nullish_r response \<Longrightarrow> truthy_r (prop_r response (js ''value'')) \<Longrightarrow>
     inline_extract rt response = stringify_value rt (prop_r response (js ''value''))"
  by (simp add: inline_extract_def)

subsection \<open>Evaluation of the examples\<close>

lemmas text_defs =
  jsonCandidate_def marker_def trim_def is_space_def strip_fences_def strip_json_fence_def
  strip_open_fence_def strip_close_fence_def fence_def json_tag_def brace_block_def

lemmas normalize_defs =
  normalize_def ensureAnalysisArray_def normalize_option_def normalize_criterion_def
  string_list_def clampScore_def reclamp_option_def reclamp_criterion_def Math_round_def

lemma example_parse_null: "JSON_parse example_runtime (js ''null'') = Some JNull"
  by (simp add: example_runtime_def example_parses_def example_payload_def stray_payload_def
      conforming_payload_def)

lemma example_parse_stray: "JSON_parse example_runtime stray_payload = Some stray_parsed"
  by (simp add: example_runtime_def example_parses_def example_payload_def stray_payload_def)

lemma stray_normalize: "normalize example_runtime stray_parsed = Inr stray_result"
  by (simp add: normalize_defs stray_parsed_def stray_result_def)

lemma candidate_null: "jsonCandidate (marker @ [10] @ js ''null'') = Some (js ''null'')"
  by (simp add: text_defs)

lemma candidate_stray: "jsonCandidate (marker @ [10] @ stray_payload) = Some stray_payload"
  by (simp add: text_defs stray_payload_def)

lemmas example_parse_defs =
  example_runtime_def example_parses_def example_payload_def stray_payload_def
  conforming_payload_def

lemma parse_bare_object: "JSON_parse example_runtime bare_object = Some bare_object_parsed"
  by (simp add: example_parse_defs bare_object_def bare_object_parsed_def)

lemma parse_trailing_comma: "JSON_parse example_runtime trailing_comma_text = None"
  by (simp add: example_parse_defs trailing_comma_text_def)

lemma cleaned_trailing_comma: "cleaned trailing_comma_text = bare_object"
  by (simp add: cleaned_def trailing_comma_text_def bare_object_def is_space_def)

lemma parse_wrapped: "JSON_parse example_runtime wrapped_text = None"
  by (simp add: example_parse_defs wrapped_text_def)

lemma cleaned_wrapped: "cleaned wrapped_text = wrapped_text"
  by (simp add: cleaned_def wrapped_text_def is_space_def)

lemma block_wrapped: "brace_block wrapped_text = Some bare_object"
  by (simp add: brace_block_def wrapped_text_def bare_object_def)

lemma parse_plain: "JSON_parse example_runtime plain_text = None"
  by (simp add: example_parse_defs plain_text_def)

lemma cleaned_plain: "cleaned plain_text = plain_text"
  by (simp add: cleaned_def plain_text_def is_space_def)

lemma block_plain: "brace_block plain_text = None"
  by (simp add: brace_block_def plain_text_def)

lemma candidate_plain: "jsonCandidate (marker @ plain_text) = Some plain_text"
  by (simp add: text_defs plain_text_def)

lemma parse_conforming:
  "JSON_parse example_runtime conforming_payload = Some (encode_result conforming_result)"
  by (simp add: example_parse_defs)

lemma conforming_result_conforms: "conforms conforming_result"
  by (simp add: conforms_def conforming_result_def conforming_score_def)

lemma conforming_text_index: "indexOf marker (marker @ [10] @ conforming_payload) = Some 0"
  by (simp add: marker_def)

lemma conforming_text_trim:
  "trim (drop (0 + length marker) (marker @ [10] @ conforming_payload)) = conforming_payload"
  by (simp add: trim_def is_space_def conforming_payload_def)

lemma conforming_payload_braces:
  "conforming_payload = 123 # butlast (tl conforming_payload) @ [125]"
  by (simp add: conforming_payload_def)

lemma candidate_js_tag:
  "jsonCandidate (marker @ js ''```js\<newline>{}\<newline>```'') = Some (js ''js\<newline>{}'')"
  by (simp add: text_defs)

lemma gemini_marker_only: "gemini_cleaned marker = Inr []"
  by (simp add: gemini_cleaned_def marker_def strip_fences_def trim_def strip_json_fence_def
      strip_open_fence_def strip_close_fence_def fence_def)

lemma parse_empty: "JSON_parse example_runtime [] = None"
  by (simp add: example_parse_defs)

lemma fenced_text_index: "indexOf marker fenced_text = Some 13"
  by (simp add: marker_def fenced_text_def)

lemma fenced_text_rest:
  "drop (13 + length marker) fenced_text =
     [10] @ fence @ js ''json'' @ [10] @ 123 # butlast (tl bare_object) @ [125] @ [10] @ fence @ [10]"
  by (simp add: marker_def fenced_text_def fence_def bare_object_def)

lemma bare_object_braces: "123 # butlast (tl bare_object) @ [125] = bare_object"
  by (simp add: bare_object_def)

lemma wrapped_no_marker: "indexOf marker wrapped_text = None"
  by (simp add: marker_def wrapped_text_def)

lemma plain_no_marker: "indexOf marker plain_text = None"
  by (simp add: marker_def plain_text_def)

lemma candidate_marker_only: "jsonCandidate marker = Some []"
  by (simp add: text_defs)

lemma throwing_response_props:
  "truthy_r throwing_response" "\<not> nullish_r throwing_response"
  "prop_r throwing_response (js ''text'') = RFun None"
  "\<not> truthy_r (prop_r throwing_response (js ''value''))"
  "nonempty_string (prop_r throwing_response (js ''outputText''))"
  "prop_r throwing_response (js ''outputText'') = RStr (js ''hi'')"
  by (simp_all add: throwing_response_def)

lemma throwing_response_extract: "extractRawText rt throwing_response = Inr (RStr (js ''hi''))"
  by (simp add: extractRawText_def text_accessor_def text_field_def outputText_field_def
      throwing_response_def)

lemma accessor_response_props:
  "truthy_r accessor_response"
  "prop_r accessor_response (js ''text'') = RFun (Some (RStr (js ''abc'')))"
  "nonempty_string (RStr (js ''abc''))"
  by (simp_all add: accessor_response_def)

lemma outputs_response_scan:
  "text_accessor outputs_response = None" "text_field outputs_response = None"
  "outputText_field outputs_response = None"
  "outputs_scan rt outputs_response = Some (RStr (js ''deep''))"
  by (simp_all add: text_accessor_def text_field_def outputText_field_def outputs_scan_def
      outputs_response_def)

lemma callable_response_extract:
  \<open>extractRawText example_runtime callable_response = Inr (RStr (js ''() => "hi"''))\<close>
  by (simp add: extractRawText_def text_accessor_def text_field_def outputText_field_def
      outputs_scan_def serialization_def last_resort_def String_r_def callable_response_def
      example_runtime_def)

lemma undefined_serialization: "serialization example_runtime RUndefined = None"
  by (simp add: serialization_def example_runtime_def)

lemma throwing_response_outputText:
  "outputText_field throwing_response = Some (RStr (js ''hi''))"
  by (simp add: outputText_field_def throwing_response_def)

lemma undefined_stringify: "JSON_stringify example_runtime RUndefined = StringifyUndefined"
  by (simp add: example_runtime_def)

lemma null_stringify: "JSON_stringify example_runtime RNull = Stringified (js ''null'')"
  by (simp add: example_runtime_def)

section \<open>The claims\<close>




text \<open>
  C3.  Winner inference on a normalized result whose winner identifier is empty (the empty
  string; the test \<open>!final.winnerId\<close> takes every falsy value the same way).  With more
  than one option analysis the winner becomes the \<open>optionId\<close> of the option at some
  position \<open>i\<close> whose average is the highest and strictly above the average of every
  option before it: the highest mean, the first one among equals.  The average of an option
  is the arithmetic mean of its scores, and 0 when it has none.  With no or one option
  analysis the result is left as it is.
\<close>

theorem winner_inference_on_empty_winner:
  "(\<forall>opt. avg opt =
      (if criteriaAnalysis opt = [] then 0
       else sum_list (map score (criteriaAnalysis opt)) / real (length (criteriaAnalysis opt)))) \<and>
   (\<not> truthy (winnerId final) \<and> 1 < length (analysis final) \<longrightarrow>
      (\<exists>i<length (analysis final).
         infer_winner final = final\<lparr>winnerId := JStr (optionId (analysis final ! i))\<rparr> \<and>
         (\<forall>j<length (analysis final). avg (analysis final ! j) \<le> avg (analysis final ! i)) \<and>
         (\<forall>j<i. avg (analysis final ! j) < avg (analysis final ! i)))) \<and>
   (\<not> truthy (winnerId final) \<and> length (analysis final) \<le> 1 \<longrightarrow>
      infer_winner final = final \<and> winnerId (infer_winner final) = winnerId final)"
  using infer_winner_selects [of final] infer_winner_few [of final]
  by (simp add: avg_mean)

theorem winner_inference_on_empty_winner_witness:
  "winnerId tie_example = JStr [] \<and> \<not> truthy (winnerId tie_example) \<and>
   1 < length (analysis tie_example) \<and>
   (\<exists>i<length (analysis tie_example).
      infer_winner tie_example =
        tie_example\<lparr>winnerId := JStr (optionId (analysis tie_example ! i))\<rparr> \<and>
      (\<forall>j<length (analysis tie_example).
         avg (analysis tie_example ! j) \<le> avg (analysis tie_example ! i)) \<and>
      (\<forall>j<i. avg (analysis tie_example ! j) < avg (analysis tie_example ! i))) \<and>
   infer_winner tie_example = tie_example\<lparr>winnerId := JStr (js ''o2'')\<rparr> \<and>
   avg (analysis tie_example ! 0) = 72 \<and> avg (analysis tie_example ! 1) = 90 \<and>
   avg (analysis tie_example ! 2) = 90 \<and>
   \<not> truthy (winnerId single_example) \<and> length (analysis single_example) \<le> 1 \<and>
   infer_winner single_example = single_example"
proof -
  have h1: "\<not> truthy (winnerId tie_example) \<and> 1 < length (analysis tie_example)"
    by (simp add: tie_example_def)
  have h2: "\<not> truthy (winnerId single_example) \<and> length (analysis single_example) \<le> 1"
    by (simp add: single_example_def tie_example_def)
  from winner_inference_on_empty_winner [of tie_example] h1
  have c1: "\<exists>i<length (analysis tie_example).
      infer_winner tie_example =
        tie_example\<lparr>winnerId := JStr (optionId (analysis tie_example ! i))\<rparr> \<and>
      (\<forall>j<length (analysis tie_example).
         avg (analysis tie_example ! j) \<le> avg (analysis tie_example ! i)) \<and>
      (\<forall>j<i. avg (analysis tie_example ! j) < avg (analysis tie_example ! i))"
    by blast
  from winner_inference_on_empty_winner [of single_example] h2
  have c2: "infer_winner single_example = single_example" by blast
  have e: "winnerId tie_example = JStr []" by (simp add: tie_example_def)
  from e h1 c1 tie_example_winner tie_example_avgs h2 c2 show ?thesis by blast
qed

text \<open>
  C9.  Winner inference changes nothing but \<open>winnerId\<close>: the analysis list with each of
  its elements, the verdict, the recommendation, the summary, the top risks and the next
  steps are the same before and after it; and a winner identifier that is not empty (a
  string that is not empty, and every other truthy value) is never overwritten.
\<close>

theorem winner_inference_frame:
  "analysis (infer_winner final) = analysis final \<and>
   verdict (infer_winner final) = verdict final \<and>
   recommendation (infer_winner final) = recommendation final \<and>
   summary (infer_winner final) = summary final \<and>
   topRisks (infer_winner final) = topRisks final \<and>
   nextSteps (infer_winner final) = nextSteps final \<and>
   (\<exists>w. infer_winner final = final\<lparr>winnerId := w\<rparr>) \<and>
   (\<forall>s. winnerId final = JStr s \<and> s \<noteq> [] \<longrightarrow> infer_winner final = final) \<and>
   (truthy (winnerId final) \<longrightarrow> infer_winner final = final)"
proof -
  have "\<exists>w. infer_winner final = final\<lparr>winnerId := w\<rparr>"
  proof (cases "\<not> truthy (winnerId final) \<and> 1 < length (analysis final)")
    case True
    with infer_winner_selects [of final] show ?thesis by blast
  next
    case False
    then have "infer_winner final = final" by (auto simp: infer_winner_def)
    then have "infer_winner final = final\<lparr>winnerId := winnerId final\<rparr>" by simp
    then show ?thesis by blast
  qed
  moreover have "infer_winner final = final" if "winnerId final = JStr s \<and> s \<noteq> []" for s
    using that by (simp add: infer_winner_def)
  ultimately show ?thesis
    by (simp add: infer_winner_analysis infer_winner_fields infer_winner_truthy)
qed

theorem winner_inference_frame_witness:
  "winnerId example_result = JStr (js ''o1'') \<and> js ''o1'' \<noteq> [] \<and>
   truthy (winnerId example_result) \<and>
   infer_winner example_result = example_result \<and>
   analysis (infer_winner tie_example) = analysis tie_example \<and>
   verdict (infer_winner tie_example) = verdict tie_example \<and>
   winnerId (infer_winner tie_example) \<noteq> winnerId tie_example"
proof -
  have h1: "winnerId example_result = JStr (js ''o1'') \<and> js ''o1'' \<noteq> []"
    by (simp add: example_result_def)
  have h2: "truthy (winnerId example_result)" by (simp add: example_result_def)
  from winner_inference_frame [of example_result] h1
  have c1: "infer_winner example_result = example_result" by blast
  from winner_inference_frame [of tie_example]
  have c2: "analysis (infer_winner tie_example) = analysis tie_example"
    and c3: "verdict (infer_winner tie_example) = verdict tie_example" by blast+
  have c4: "winnerId (infer_winner tie_example) \<noteq> winnerId tie_example"
    by (simp add: tie_example_winner) (simp add: tie_example_def)
  from h1 h2 c1 c2 c3 c4 show ?thesis by blast
qed

text \<open>
  C7.  The claim is that the normalizer never raises, whatever value the lenient parser
  produced, \<open>null\<close> included.  The code reads \<open>parsedRaw.analysis\<close> before any
  guard, and \<open>a.optionId\<close> of every element of the analysis array: on the parsed value
  \<open>null\<close>, and on an analysis array with a \<open>null\<close> element, it throws a TypeError.
  The model text \<^verbatim>\<open>###RESULT_JSON###\<close>, a line feed and \<^verbatim>\<open>null\<close> has a candidate
  that is not empty and parses, and the pipeline ends in that TypeError.
\<close>

theorem normalizer_raises_on_null:
  "normalize_and_infer rt JNull = Inl TypeError \<and>
   normalize_and_infer rt (JObj [(js ''analysis'', JArr [JNull])]) = Inl TypeError \<and>
   analyze_text example_runtime (marker @ [10] @ js ''null'') = Inl TypeError"
proof -
  have a: "normalize_and_infer r JNull = Inl TypeError" for r
    by (simp add: normalize_and_infer_def normalize_def)
  have b: "normalize_and_infer rt (JObj [(js ''analysis'', JArr [JNull])]) = Inl TypeError"
    by (simp add: normalize_and_infer_def normalize_def ensureAnalysisArray_def
        normalize_option_def)
  have c: "analyze_text example_runtime (marker @ [10] @ js ''null'') = Inl TypeError"
    unfolding analyze_text_def candidate_null
    using example_parse_null a by (simp add: safeParseJSON_def)
  from a b c show ?thesis by blast
qed

text \<open>
  C2.  The claim is that the winner identifier of a returned result is the
  \<open>optionId\<close> of one of its option analyses, or the empty string.  The code takes the
  identifier from the payload and infers one only when that is empty; an identifier that
  names no option is returned as it came.  The model text \<^verbatim>\<open>###RESULT_JSON###\<close>, a
  line feed and a payload with the one option \<open>o1\<close> and the winner \<open>o9\<close> gives a
  result whose winner is \<open>o9\<close>.
\<close>

theorem winner_not_among_options:
  "analyze_text example_runtime (marker @ [10] @ stray_payload) = Inr stray_result \<and>
   winnerId stray_result = JStr (js ''o9'') \<and>
   map optionId (analysis stray_result) = [js ''o1'']"
proof -
  have "infer_winner stray_result = stray_result"
    by (simp add: infer_winner_def stray_result_def)
  moreover have "stray_payload \<noteq> []"
    by (simp add: stray_payload_def)
  ultimately
  have "analyze_text example_runtime (marker @ [10] @ stray_payload) = Inr stray_result"
    unfolding analyze_text_def candidate_stray
    by (simp add: safeParseJSON_def example_parse_stray normalize_and_infer_def stray_normalize)
  then show ?thesis by (simp add: stray_result_def)
qed

text \<open>
  C10.  When neither \<open>process.env.API_KEY\<close> nor the global \<open>__API_KEY__\<close> is set
  (each is falsy), \<open>analyzeDecision\<close> throws the missing-key error and the world is as
  before: no call of the model is made.  When only the global fallback is set, after the call
  \<open>process.env\<close> has \<open>API_KEY\<close> equal to the fallback and its other entries as
  before, whatever the call returns or throws, and the model was called once more, with the
  fallback as the key.
\<close>

theorem api_key_resolution:
  "(\<not> truthy (process_env w (js ''API_KEY'')) \<and> \<not> truthy (global_API_KEY w) \<longrightarrow>
      analyzeDecision rt model w data = (Inl MissingApiKey, w)) \<and>
   (\<not> truthy (process_env w (js ''API_KEY'')) \<and> truthy (global_API_KEY w) \<longrightarrow>
      process_env (snd (analyzeDecision rt model w data)) =
        (process_env w)(js ''API_KEY'' := global_API_KEY w) \<and>
      global_API_KEY (snd (analyzeDecision rt model w data)) = global_API_KEY w \<and>
      invocations (snd (analyzeDecision rt model w data)) =
        invocations w @ [(global_API_KEY w, data)] \<and>
      fst (analyzeDecision rt model w data) \<noteq> Inl MissingApiKey)"
proof -
  have "post_process rt response \<noteq> Inl MissingApiKey" for response
    using post_process_error [of rt response MissingApiKey] by auto
  then show ?thesis
    by (auto simp: analyzeDecision_def resolve_api_key_def Let_def split: option.splits)
qed

theorem api_key_resolution_witness:
  "\<not> truthy (process_env no_key_world (js ''API_KEY'')) \<and>
   \<not> truthy (global_API_KEY no_key_world) \<and>
   analyzeDecision example_runtime failing_model no_key_world () =
     (Inl MissingApiKey, no_key_world) \<and>
   \<not> truthy (process_env fallback_world (js ''API_KEY'')) \<and>
   truthy (global_API_KEY fallback_world) \<and>
   process_env (snd (analyzeDecision example_runtime failing_model fallback_world ()))
     (js ''API_KEY'') = JStr (js ''dev-key'') \<and>
   invocations (snd (analyzeDecision example_runtime failing_model fallback_world ())) =
     [(JStr (js ''dev-key''), ())]"
proof -
  have h1: "\<not> truthy (process_env no_key_world (js ''API_KEY'')) \<and>
            \<not> truthy (global_API_KEY no_key_world)"
    by (simp add: no_key_world_def)
  have h2: "\<not> truthy (process_env fallback_world (js ''API_KEY'')) \<and>
            truthy (global_API_KEY fallback_world)"
    by (simp add: fallback_world_def)
  from api_key_resolution [of no_key_world example_runtime failing_model "()"] h1
  have c1: "analyzeDecision example_runtime failing_model no_key_world () =
              (Inl MissingApiKey, no_key_world)"
    by blast
  from api_key_resolution [of fallback_world example_runtime failing_model "()"] h2
  have c2: "process_env (snd (analyzeDecision example_runtime failing_model fallback_world ())) =
              (process_env fallback_world)(js ''API_KEY'' := global_API_KEY fallback_world)"
    and c3: "invocations (snd (analyzeDecision example_runtime failing_model fallback_world ())) =
              invocations fallback_world @ [(global_API_KEY fallback_world, ())]"
    by blast+
  from c2 have c2': "process_env (snd (analyzeDecision example_runtime failing_model
                        fallback_world ())) (js ''API_KEY'') = JStr (js ''dev-key'')"
    by (simp add: fallback_world_def)
  from c3 have c3': "invocations (snd (analyzeDecision example_runtime failing_model
                        fallback_world ())) = [(JStr (js ''dev-key''), ())]"
    by (simp add: fallback_world_def)
  from h1 c1 h2 c2' c3' show ?thesis by blast
qed

text \<open>
  C5.  The lenient parser on a candidate: the strict parse first; when that fails, the parse
  of the candidate with the trailing commas removed (a comma, the white space after it and a
  closing brace or bracket become the closing character alone); when that fails too, the
  parse of the block from the first \<open>{\<close> to the last \<open>}\<close> of the cleaned
  candidate.  It fails exactly when all three attempts fail (the third also when there is no
  such block), and exactly then the pipeline fails with the invalid-JSON error.
\<close>

theorem lenient_parser_three_attempts:
  "(\<forall>v. JSON_parse rt text = Some v \<longrightarrow> safeParseJSON rt text = Inr v) \<and>
   (\<forall>v. JSON_parse rt text = None \<and> JSON_parse rt (cleaned text) = Some v \<longrightarrow>
        safeParseJSON rt text = Inr v) \<and>
   (\<forall>m v. JSON_parse rt text = None \<and> JSON_parse rt (cleaned text) = None \<and>
          brace_block (cleaned text) = Some m \<and> JSON_parse rt m = Some v \<longrightarrow>
        safeParseJSON rt text = Inr v) \<and>
   ((\<exists>e. safeParseJSON rt text = Inl e) \<longleftrightarrow>
      JSON_parse rt text = None \<and> JSON_parse rt (cleaned text) = None \<and>
      (\<forall>m. brace_block (cleaned text) = Some m \<longrightarrow> JSON_parse rt m = None)) \<and>
   (\<forall>rawText. jsonCandidate rawText = Some text \<and> text \<noteq> [] \<longrightarrow>
      (analyze_text rt rawText = Inl InvalidJson \<longleftrightarrow>
         JSON_parse rt text = None \<and> JSON_parse rt (cleaned text) = None \<and>
         (\<forall>m. brace_block (cleaned text) = Some m \<longrightarrow> JSON_parse rt m = None))) \<and>
   cleaned text = strip_comma_before 93 (strip_comma_before 125 text) \<and>
   (\<forall>c xs ws ys. (c = 125 \<or> c = 93) \<and> 44 \<notin> set xs \<and> (\<forall>w\<in>set ws. is_space w) \<longrightarrow>
      strip_comma_before c (xs @ 44 # ws @ c # ys) = xs @ c # strip_comma_before c ys) \<and>
   (\<forall>c xs. 44 \<notin> set xs \<longrightarrow> strip_comma_before c xs = xs) \<and>
   (\<forall>pre mid post. 123 \<notin> set pre \<and> 125 \<notin> set post \<longrightarrow>
      brace_block (pre @ 123 # mid @ 125 # post) = Some (123 # mid @ [125])) \<and>
   (\<forall>s. brace_block s = None \<longleftrightarrow> \<not> (\<exists>pre mid post. s = pre @ 123 # mid @ 125 # post))"
proof -
  have a1: "\<forall>v. JSON_parse rt text = Some v \<longrightarrow> safeParseJSON rt text = Inr v"
    by (simp add: safeParseJSON_def)
  have a2: "\<forall>v. JSON_parse rt text = None \<and> JSON_parse rt (cleaned text) = Some v \<longrightarrow>
        safeParseJSON rt text = Inr v"
    by (simp add: safeParseJSON_def)
  have a3: "\<forall>m v. JSON_parse rt text = None \<and> JSON_parse rt (cleaned text) = None \<and>
          brace_block (cleaned text) = Some m \<and> JSON_parse rt m = Some v \<longrightarrow>
        safeParseJSON rt text = Inr v"
    by (simp add: safeParseJSON_def)
  note a4 = safeParseJSON_fails [of rt "text"]
  have a5: "\<forall>rawText. jsonCandidate rawText = Some text \<and> text \<noteq> [] \<longrightarrow>
      (analyze_text rt rawText = Inl InvalidJson \<longleftrightarrow>
         JSON_parse rt text = None \<and> JSON_parse rt (cleaned text) = None \<and>
         (\<forall>m. brace_block (cleaned text) = Some m \<longrightarrow> JSON_parse rt m = None))"
    using analyze_text_InvalidJson [of _ "text" rt] a4 by simp
  have a6: "cleaned text = strip_comma_before 93 (strip_comma_before 125 text)"
    by (simp add: cleaned_def)
  have a7: "\<forall>c xs ws ys. (c = 125 \<or> c = 93) \<and> 44 \<notin> set xs \<and> (\<forall>w\<in>set ws. is_space w) \<longrightarrow>
      strip_comma_before c (xs @ 44 # ws @ c # ys) = xs @ c # strip_comma_before c ys"
    using strip_trailing_comma by blast
  have a8: "\<forall>c xs. 44 \<notin> set xs \<longrightarrow> strip_comma_before c xs = xs"
    using strip_comma_before_no_comma by blast
  have a9: "\<forall>pre mid post. 123 \<notin> set pre \<and> 125 \<notin> set post \<longrightarrow>
      brace_block (pre @ 123 # mid @ 125 # post) = Some (123 # mid @ [125])"
    using brace_block_found by blast
  have a10: "\<forall>s. brace_block s = None \<longleftrightarrow> \<not> (\<exists>pre mid post. s = pre @ 123 # mid @ 125 # post)"
    using brace_block_None by blast
  show ?thesis
    by (intro conjI) (rule a1 a2 a3 a4 a5 a6 a7 a8 a9 a10)+
qed

theorem lenient_parser_three_attempts_witness:
  "JSON_parse example_runtime bare_object = Some bare_object_parsed \<and>
   safeParseJSON example_runtime bare_object = Inr bare_object_parsed \<and>
   JSON_parse example_runtime trailing_comma_text = None \<and>
   JSON_parse example_runtime (cleaned trailing_comma_text) = Some bare_object_parsed \<and>
   safeParseJSON example_runtime trailing_comma_text = Inr bare_object_parsed \<and>
   JSON_parse example_runtime wrapped_text = None \<and>
   JSON_parse example_runtime (cleaned wrapped_text) = None \<and>
   brace_block (cleaned wrapped_text) = Some bare_object \<and>
   safeParseJSON example_runtime wrapped_text = Inr bare_object_parsed \<and>
   JSON_parse example_runtime plain_text = None \<and>
   JSON_parse example_runtime (cleaned plain_text) = None \<and>
   brace_block (cleaned plain_text) = None \<and>
   (\<exists>e. safeParseJSON example_runtime plain_text = Inl e) \<and>
   jsonCandidate (marker @ plain_text) = Some plain_text \<and> plain_text \<noteq> [] \<and>
   analyze_text example_runtime (marker @ plain_text) = Inl InvalidJson"
proof -
  note p1 = parse_bare_object
  note p2 = parse_trailing_comma
  have p3: "JSON_parse example_runtime (cleaned trailing_comma_text) = Some bare_object_parsed"
    by (simp add: cleaned_trailing_comma parse_bare_object)
  note p4 = parse_wrapped
  have p5: "JSON_parse example_runtime (cleaned wrapped_text) = None"
    by (simp add: cleaned_wrapped parse_wrapped)
  have p6: "brace_block (cleaned wrapped_text) = Some bare_object"
    by (simp add: cleaned_wrapped block_wrapped)
  note p7 = parse_plain
  have p8: "JSON_parse example_runtime (cleaned plain_text) = None"
    by (simp add: cleaned_plain parse_plain)
  have p9: "brace_block (cleaned plain_text) = None"
    by (simp add: cleaned_plain block_plain)
  note p10 = candidate_plain
  have p11: "plain_text \<noteq> []" by (simp add: plain_text_def)
  note t1 = lenient_parser_three_attempts [of example_runtime bare_object]
  note t2 = lenient_parser_three_attempts [of example_runtime trailing_comma_text]
  note t3 = lenient_parser_three_attempts [of example_runtime wrapped_text]
  note t4 = lenient_parser_three_attempts [of example_runtime plain_text]
  have c1: "safeParseJSON example_runtime bare_object = Inr bare_object_parsed"
    by (rule t1 [THEN conjunct1, rule_format, OF p1])
  have c2: "safeParseJSON example_runtime trailing_comma_text = Inr bare_object_parsed"
    by (rule t2 [THEN conjunct2, THEN conjunct1, rule_format, OF conjI [OF p2 p3]])
  have c3: "safeParseJSON example_runtime wrapped_text = Inr bare_object_parsed"
    by (rule t3 [THEN conjunct2, THEN conjunct2, THEN conjunct1, rule_format,
          OF conjI [OF p4 conjI [OF p5 conjI [OF p6 p1]]]])
  have none: "\<forall>m. brace_block (cleaned plain_text) = Some m \<longrightarrow>
                JSON_parse example_runtime m = None"
    using p9 by simp
  have c4: "\<exists>e. safeParseJSON example_runtime plain_text = Inl e"
    by (rule t4 [THEN conjunct2, THEN conjunct2, THEN conjunct2, THEN conjunct1, THEN iffD2,
          OF conjI [OF p7 conjI [OF p8 none]]])
  have c5: "analyze_text example_runtime (marker @ plain_text) = Inl InvalidJson"
    by (rule t4 [THEN conjunct2, THEN conjunct2, THEN conjunct2, THEN conjunct2,
          THEN conjunct1, rule_format, OF conjI [OF p10 p11], THEN iffD2,
          OF conjI [OF p7 conjI [OF p8 none]]])
  show ?thesis
    by (intro conjI) (rule p1 c1 p2 p3 c2 p4 p5 p6 c3 p7 p8 p9 c4 p10 p11 c5)+
qed

text \<open>
  C8.  A payload that conforms to the advertised schema (the canonical field names, string
  identifiers, integer scores from 0 to 100) goes through the normalizer unchanged in what
  it says: the result has as many option analyses, with the same option identifiers, the
  same criteria identifiers and the same scores (and the same reasonings, pros and cons,
  verdict and recommendation).  So does the text that has the marker and, after it, such a
  payload between its braces.
\<close>

theorem conforming_payload_round_trip:
  "(conforms r \<longrightarrow>
      (\<exists>r'. normalize_and_infer rt (encode_result r) = Inr r' \<and>
         length (analysis r') = length (analysis r) \<and>
         map optionId (analysis r') = map optionId (analysis r) \<and>
         map (\<lambda>opt. map criteriaId (criteriaAnalysis opt)) (analysis r') =
           map (\<lambda>opt. map criteriaId (criteriaAnalysis opt)) (analysis r) \<and>
         map (\<lambda>opt. map score (criteriaAnalysis opt)) (analysis r') =
           map (\<lambda>opt. map score (criteriaAnalysis opt)) (analysis r) \<and>
         analysis r' = map clamp_confidences (analysis r) \<and>
         verdict r' = verdict r \<and> recommendation r' = recommendation r)) \<and>
   (conforms r \<and> indexOf marker rawText = Some i \<and>
    trim (drop (i + length marker) rawText) = 123 # mid @ [125] \<and>
    JSON_parse rt (123 # mid @ [125]) = Some (encode_result r) \<longrightarrow>
      (\<exists>r'. analyze_text rt rawText = Inr r' \<and>
         length (analysis r') = length (analysis r) \<and>
         map optionId (analysis r') = map optionId (analysis r) \<and>
         map (\<lambda>opt. map criteriaId (criteriaAnalysis opt)) (analysis r') =
           map (\<lambda>opt. map criteriaId (criteriaAnalysis opt)) (analysis r) \<and>
         map (\<lambda>opt. map score (criteriaAnalysis opt)) (analysis r') =
           map (\<lambda>opt. map score (criteriaAnalysis opt)) (analysis r)))"
proof -
  let ?final = "\<lparr>analysis = map clamp_confidences (analysis r), verdict = verdict r,
                winnerId = winnerId r, recommendation = recommendation r,
                summary = JUndefined, topRisks = JUndefined, nextSteps = JUndefined\<rparr>"
  let ?r' = "infer_winner ?final"
  have an: "analysis ?r' = map clamp_confidences (analysis r)"
    by (simp add: infer_winner_analysis)
  have ids: "map optionId (analysis ?r') = map optionId (analysis r)"
    unfolding an by (simp add: clamp_confidences_def)
  have cids: "map (\<lambda>opt. map criteriaId (criteriaAnalysis opt)) (analysis ?r') =
           map (\<lambda>opt. map criteriaId (criteriaAnalysis opt)) (analysis r)"
    unfolding an by (simp add: clamp_confidences_def clamp_confidence_def comp_def)
  have scores: "map (\<lambda>opt. map score (criteriaAnalysis opt)) (analysis ?r') =
           map (\<lambda>opt. map score (criteriaAnalysis opt)) (analysis r)"
    unfolding an by (simp add: clamp_confidences_def clamp_confidence_def comp_def)
  have len: "length (analysis ?r') = length (analysis r)"
    unfolding an by simp
  have rest: "verdict ?r' = verdict r" "recommendation ?r' = recommendation r"
    by (simp_all add: infer_winner_fields)
  have n: "normalize_and_infer rt (encode_result r) = Inr ?r'" if "conforms r"
    by (simp add: normalize_and_infer_def normalize_encode [OF that])
  have t: "analyze_text rt rawText = Inr ?r'"
    if "conforms r \<and> indexOf marker rawText = Some i \<and>
        trim (drop (i + length marker) rawText) = 123 # mid @ [125] \<and>
        JSON_parse rt (123 # mid @ [125]) = Some (encode_result r)"
  proof -
    from that have "jsonCandidate rawText = Some (123 # mid @ [125])"
      by (simp add: jsonCandidate_def strip_fences_braces)
    with that n show ?thesis
      by (simp add: analyze_text_def safeParseJSON_def)
  qed
  show ?thesis
    using n t an ids cids scores len rest by blast
qed

theorem conforming_payload_round_trip_witness:
  "conforms conforming_result \<and>
   indexOf marker (marker @ [10] @ conforming_payload) = Some 0 \<and>
   trim (drop (0 + length marker) (marker @ [10] @ conforming_payload)) =
     123 # butlast (tl conforming_payload) @ [125] \<and>
   JSON_parse example_runtime (123 # butlast (tl conforming_payload) @ [125]) =
     Some (encode_result conforming_result) \<and>
   (\<exists>r'. analyze_text example_runtime (marker @ [10] @ conforming_payload) = Inr r' \<and>
      length (analysis r') = length (analysis conforming_result) \<and>
      map optionId (analysis r') = map optionId (analysis conforming_result) \<and>
      map (\<lambda>opt. map criteriaId (criteriaAnalysis opt)) (analysis r') =
        map (\<lambda>opt. map criteriaId (criteriaAnalysis opt)) (analysis conforming_result) \<and>
      map (\<lambda>opt. map score (criteriaAnalysis opt)) (analysis r') =
        map (\<lambda>opt. map score (criteriaAnalysis opt)) (analysis conforming_result)) \<and>
   (\<exists>r'. normalize_and_infer example_runtime (encode_result conforming_result) = Inr r' \<and>
      map (\<lambda>opt. map score (criteriaAnalysis opt)) (analysis r') = [[88, 70], [0, 100]])"
proof -
  note h1 = conforming_result_conforms
  note h2 = conforming_text_index
  have h3: "trim (drop (0 + length marker) (marker @ [10] @ conforming_payload)) =
              123 # butlast (tl conforming_payload) @ [125]"
    using conforming_text_trim conforming_payload_braces by simp
  have h4: "JSON_parse example_runtime (123 # butlast (tl conforming_payload) @ [125]) =
              Some (encode_result conforming_result)"
    using parse_conforming conforming_payload_braces by simp
  note t = conforming_payload_round_trip [of conforming_result example_runtime
      "marker @ [10] @ conforming_payload" 0 "butlast (tl conforming_payload)"]
  have c1: "\<exists>r'. analyze_text example_runtime (marker @ [10] @ conforming_payload) = Inr r' \<and>
      length (analysis r') = length (analysis conforming_result) \<and>
      map optionId (analysis r') = map optionId (analysis conforming_result) \<and>
      map (\<lambda>opt. map criteriaId (criteriaAnalysis opt)) (analysis r') =
        map (\<lambda>opt. map criteriaId (criteriaAnalysis opt)) (analysis conforming_result) \<and>
      map (\<lambda>opt. map score (criteriaAnalysis opt)) (analysis r') =
        map (\<lambda>opt. map score (criteriaAnalysis opt)) (analysis conforming_result)"
    by (rule t [THEN conjunct2, rule_format, OF conjI [OF h1 conjI [OF h2 conjI [OF h3 h4]]]])
  from t [THEN conjunct1, rule_format, OF h1] obtain r'
    where r': "normalize_and_infer example_runtime (encode_result conforming_result) = Inr r'"
      "map (\<lambda>opt. map score (criteriaAnalysis opt)) (analysis r') =
         map (\<lambda>opt. map score (criteriaAnalysis opt)) (analysis conforming_result)"
    by blast
  have "map (\<lambda>opt. map score (criteriaAnalysis opt)) (analysis conforming_result) =
          [[88, 70], [0, 100]]"
    by (simp add: conforming_result_def)
  with r' have c2: "\<exists>r'. normalize_and_infer example_runtime (encode_result conforming_result) = Inr r' \<and>
      map (\<lambda>opt. map score (criteriaAnalysis opt)) (analysis r') = [[88, 70], [0, 100]]"
    by auto
  show ?thesis
    by (intro conjI) (rule h1 h2 h3 h4 c1 c2)+
qed

text \<open>
  C4.  As stated the claim fails in two places, shown by the counterexample after the
  theorem: of a fence tagged \<open>js\<close> only the
  backticks are removed and the tag stays in the candidate, and in the Gemini service a
  marker with nothing after it fails with the invalid-JSON error, not with the no-JSON error.
  What holds: when the marker occurs, the candidate (of both services) is the text after its
  first occurrence, trimmed, then without a leading fence of three backticks, bare or tagged
  \<open>json\<close> in any letter case, and without a trailing fence, and trimmed again, so a
  payload between braces comes out of such a fence as it is; when the marker is absent, the
  candidate is the block from the first \<open>{\<close> to the last \<open>}\<close> of the text,
  if there is one.  \<open>analyzeDecision\<close> of decisionSherlock fails with the no-JSON error
  exactly when the candidate is absent or empty; the Gemini service fails with the no-JSON
  error exactly when the marker and the block are both absent, and with the invalid-JSON error
  when its candidate is empty.  Neither returns a value then.
\<close>

theorem candidate_extraction:
  "(indexOf marker rawText \<noteq> None \<longleftrightarrow> (\<exists>pre post. rawText = pre @ marker @ post)) \<and>
   (\<forall>i. indexOf marker rawText = Some i \<longrightarrow>
      rawText = take i rawText @ marker @ drop (i + length marker) rawText \<and>
      (\<forall>j<i. \<not> prefix marker (drop j rawText)) \<and>
      jsonCandidate rawText = Some (strip_fences (trim (drop (i + length marker) rawText))) \<and>
      gemini_cleaned rawText = Inr (strip_fences (trim (drop (i + length marker) rawText)))) \<and>
   (\<forall>ws0 ws1 ws2 ws3 tag mid.
      (\<forall>w\<in>set (ws0 @ ws1 @ ws2 @ ws3). is_space w) \<and> (tag = [] \<or> json_tag tag) \<longrightarrow>
      strip_fences (trim (ws0 @ fence @ tag @ ws1 @ 123 # mid @ [125] @ ws2 @ fence @ ws3)) =
        123 # mid @ [125]) \<and>
   (\<forall>ws0 ws3 mid. (\<forall>w\<in>set (ws0 @ ws3). is_space w) \<longrightarrow>
      strip_fences (trim (ws0 @ 123 # mid @ [125] @ ws3)) = 123 # mid @ [125]) \<and>
   (indexOf marker rawText = None \<longrightarrow>
      jsonCandidate rawText = brace_block rawText \<and>
      (\<forall>b. brace_block rawText = Some b \<longrightarrow> gemini_cleaned rawText = Inr b)) \<and>
   (\<forall>pre mid post. 123 \<notin> set pre \<and> 125 \<notin> set post \<longrightarrow>
      brace_block (pre @ 123 # mid @ 125 # post) = Some (123 # mid @ [125])) \<and>
   (\<forall>s. brace_block s = None \<longleftrightarrow> \<not> (\<exists>pre mid post. s = pre @ 123 # mid @ 125 # post)) \<and>
   (analyze_text rt rawText = Inl NoJsonFound \<longleftrightarrow>
      jsonCandidate rawText = None \<or> jsonCandidate rawText = Some []) \<and>
   (gemini_parse rt rawText = Inl NoJsonFound \<longleftrightarrow>
      indexOf marker rawText = None \<and> brace_block rawText = None) \<and>
   (gemini_cleaned rawText = Inr [] \<and> JSON_parse rt [] = None \<longrightarrow>
      gemini_parse rt rawText = Inl InvalidJson)"
proof -
  note a1 = indexOf_occurs [of marker rawText]
  have a2: "\<forall>i. indexOf marker rawText = Some i \<longrightarrow>
      rawText = take i rawText @ marker @ drop (i + length marker) rawText \<and>
      (\<forall>j<i. \<not> prefix marker (drop j rawText)) \<and>
      jsonCandidate rawText = Some (strip_fences (trim (drop (i + length marker) rawText))) \<and>
      gemini_cleaned rawText = Inr (strip_fences (trim (drop (i + length marker) rawText)))"
  proof (intro allI impI)
    fix i assume i: "indexOf marker rawText = Some i"
    have b1: "rawText = take i rawText @ marker @ drop (i + length marker) rawText"
      using i by (rule indexOf_split)
    have b2: "\<forall>j<i. \<not> prefix marker (drop j rawText)"
      using indexOf_Some [OF i] by simp
    have b3: "jsonCandidate rawText =
                Some (strip_fences (trim (drop (i + length marker) rawText)))"
      using i by (simp add: jsonCandidate_def)
    have b4: "gemini_cleaned rawText =
                Inr (strip_fences (trim (drop (i + length marker) rawText)))"
      using i by (rule gemini_cleaned_marker)
    from b1 b2 b3 b4
    show "rawText = take i rawText @ marker @ drop (i + length marker) rawText \<and>
      (\<forall>j<i. \<not> prefix marker (drop j rawText)) \<and>
      jsonCandidate rawText = Some (strip_fences (trim (drop (i + length marker) rawText))) \<and>
      gemini_cleaned rawText = Inr (strip_fences (trim (drop (i + length marker) rawText)))"
      by (intro conjI)
  qed
  have a3: "\<forall>ws0 ws1 ws2 ws3 tag mid.
      (\<forall>w\<in>set (ws0 @ ws1 @ ws2 @ ws3). is_space w) \<and> (tag = [] \<or> json_tag tag) \<longrightarrow>
      strip_fences (trim (ws0 @ fence @ tag @ ws1 @ 123 # mid @ [125] @ ws2 @ fence @ ws3)) =
        123 # mid @ [125]"
  proof (intro allI impI)
    fix ws0 ws1 ws2 ws3 tag :: jsstring and mid :: jsstring
    assume h: "(\<forall>w\<in>set (ws0 @ ws1 @ ws2 @ ws3). is_space w) \<and> (tag = [] \<or> json_tag tag)"
    then have "\<forall>w\<in>set ws0. is_space w" "\<forall>w\<in>set ws1. is_space w" "\<forall>w\<in>set ws2. is_space w"
      "\<forall>w\<in>set ws3. is_space w" "tag = [] \<or> json_tag tag"
      by auto
    then show "strip_fences (trim (ws0 @ fence @ tag @ ws1 @ 123 # mid @ [125] @ ws2 @ fence @ ws3)) =
        123 # mid @ [125]"
      by (rule candidate_fenced)
  qed
  have a4: "\<forall>ws0 ws3 mid. (\<forall>w\<in>set (ws0 @ ws3). is_space w) \<longrightarrow>
      strip_fences (trim (ws0 @ 123 # mid @ [125] @ ws3)) = 123 # mid @ [125]"
  proof (intro allI impI)
    fix ws0 ws3 mid :: jsstring
    assume "\<forall>w\<in>set (ws0 @ ws3). is_space w"
    then have "\<forall>w\<in>set ws0. is_space w" "\<forall>w\<in>set ws3. is_space w" by auto
    then show "strip_fences (trim (ws0 @ 123 # mid @ [125] @ ws3)) = 123 # mid @ [125]"
      by (rule candidate_unfenced)
  qed
  have a5: "indexOf marker rawText = None \<longrightarrow>
      jsonCandidate rawText = brace_block rawText \<and>
      (\<forall>b. brace_block rawText = Some b \<longrightarrow> gemini_cleaned rawText = Inr b)"
    using gemini_cleaned_block [of rawText] by (simp add: jsonCandidate_def)
  have a6: "\<forall>pre mid post. 123 \<notin> set pre \<and> 125 \<notin> set post \<longrightarrow>
      brace_block (pre @ 123 # mid @ 125 # post) = Some (123 # mid @ [125])"
    using brace_block_found by blast
  have a7: "\<forall>s. brace_block s = None \<longleftrightarrow> \<not> (\<exists>pre mid post. s = pre @ 123 # mid @ 125 # post)"
    using brace_block_None by blast
  note a8 = analyze_text_NoJsonFound [of rt rawText]
  note a9 = gemini_parse_NoJsonFound [of rt rawText]
  have a10: "gemini_cleaned rawText = Inr [] \<and> JSON_parse rt [] = None \<longrightarrow>
      gemini_parse rt rawText = Inl InvalidJson"
    using gemini_parse_empty [of rawText rt] by blast
  show ?thesis
    by (intro conjI) (rule a1 a2 a3 a4 a5 a6 a7 a8 a9 a10)+
qed


theorem candidate_extraction_witness:
  "indexOf marker fenced_text = Some 13 \<and>
   json_tag (js ''json'') \<and>
   jsonCandidate fenced_text = Some bare_object \<and>
   gemini_cleaned fenced_text = Inr bare_object \<and>
   indexOf marker wrapped_text = None \<and>
   jsonCandidate wrapped_text = Some bare_object \<and>
   gemini_cleaned wrapped_text = Inr bare_object \<and>
   indexOf marker plain_text = None \<and>
   brace_block plain_text = None \<and>
   analyze_text example_runtime plain_text = Inl NoJsonFound \<and>
   gemini_parse example_runtime plain_text = Inl NoJsonFound \<and>
   jsonCandidate marker = Some [] \<and>
   analyze_text example_runtime marker = Inl NoJsonFound \<and>
   gemini_cleaned marker = Inr [] \<and>
   JSON_parse example_runtime [] = None \<and>
   gemini_parse example_runtime marker = Inl InvalidJson"
proof -
  note tf = candidate_extraction [where rawText = fenced_text and rt = example_runtime]
  note tw = candidate_extraction [where rawText = wrapped_text and rt = example_runtime]
  note tp = candidate_extraction [where rawText = plain_text and rt = example_runtime]
  note tm = candidate_extraction [where rawText = marker and rt = example_runtime]
  note h1 = fenced_text_index
  have h2: "json_tag (js ''json'')" by (simp add: json_tag_def)
  have sp: "(\<forall>w\<in>set ([10] @ [10] @ [10] @ [10]). is_space w) \<and>
            (js ''json'' = [] \<or> json_tag (js ''json''))"
    using h2 by (simp add: is_space_def)
  have f: "strip_fences (trim ([10] @ fence @ js ''json'' @ [10] @
             123 # butlast (tl bare_object) @ [125] @ [10] @ fence @ [10])) =
           123 # butlast (tl bare_object) @ [125]"
    by (rule tf [THEN conjunct2, THEN conjunct2, THEN conjunct1, rule_format, OF sp])
  have c1: "jsonCandidate fenced_text = Some bare_object"
    using tf [THEN conjunct2, THEN conjunct1, rule_format, OF h1, THEN conjunct2, THEN conjunct2, THEN conjunct1]
    unfolding fenced_text_rest f bare_object_braces .
  have c2: "gemini_cleaned fenced_text = Inr bare_object"
    using tf [THEN conjunct2, THEN conjunct1, rule_format, OF h1, THEN conjunct2, THEN conjunct2, THEN conjunct2]
    unfolding fenced_text_rest f bare_object_braces .
  note h3 = wrapped_no_marker
  have c3: "jsonCandidate wrapped_text = Some bare_object"
    using tw [THEN conjunct2, THEN conjunct2, THEN conjunct2, THEN conjunct2, THEN conjunct1, rule_format, OF h3, THEN conjunct1] block_wrapped by simp
  have c4: "gemini_cleaned wrapped_text = Inr bare_object"
    by (rule tw [THEN conjunct2, THEN conjunct2, THEN conjunct2, THEN conjunct2, THEN conjunct1, rule_format, OF h3, THEN conjunct2, rule_format, OF block_wrapped])
  note h4 = plain_no_marker
  note h5 = block_plain
  have "jsonCandidate plain_text = brace_block plain_text"
    by (rule tp [THEN conjunct2, THEN conjunct2, THEN conjunct2, THEN conjunct2, THEN conjunct1, rule_format, OF h4, THEN conjunct1])
  with h5 have "jsonCandidate plain_text = None \<or> jsonCandidate plain_text = Some []" by simp
  then have c5: "analyze_text example_runtime plain_text = Inl NoJsonFound"
    by (rule tp [THEN conjunct2, THEN conjunct2, THEN conjunct2, THEN conjunct2, THEN conjunct2, THEN conjunct2, THEN conjunct2, THEN conjunct1, THEN iffD2])
  have c6: "gemini_parse example_runtime plain_text = Inl NoJsonFound"
    by (rule tp [THEN conjunct2, THEN conjunct2, THEN conjunct2, THEN conjunct2, THEN conjunct2, THEN conjunct2, THEN conjunct2, THEN conjunct2, THEN conjunct1, THEN iffD2, OF conjI [OF h4 h5]])
  note h6 = candidate_marker_only
  then have "jsonCandidate marker = None \<or> jsonCandidate marker = Some []" by simp
  then have c7: "analyze_text example_runtime marker = Inl NoJsonFound"
    by (rule tm [THEN conjunct2, THEN conjunct2, THEN conjunct2, THEN conjunct2, THEN conjunct2, THEN conjunct2, THEN conjunct2, THEN conjunct1, THEN iffD2])
  note h7 = gemini_marker_only
  note h8 = parse_empty
  have c8: "gemini_parse example_runtime marker = Inl InvalidJson"
    by (rule tm [THEN conjunct2, THEN conjunct2, THEN conjunct2, THEN conjunct2, THEN conjunct2, THEN conjunct2, THEN conjunct2, THEN conjunct2, THEN conjunct2, rule_format, OF conjI [OF h7 h8]])
  show ?thesis
    by (intro conjI) (rule h1 h2 c1 c2 h3 c3 c4 h4 h5 c5 c6 h6 c7 h7 h8 c8)+
qed

theorem candidate_extraction_counterexample:
  "jsonCandidate (marker @ js ''```js\<newline>{}\<newline>```'') = Some (js ''js\<newline>{}'') \<and>
   gemini_parse example_runtime marker = Inl InvalidJson"
  using candidate_js_tag gemini_parse_empty [OF gemini_marker_only parse_empty] by simp

text \<open>
  C6.  As stated the claim fails: the extraction inside \<open>analyzeDecision\<close> of
  decisionSherlock wraps its strategies in one \<open>try\<close> and rethrows whatever they
  throw, so a throwing \<open>text\<close> accessor reaches the caller as the extraction error; and
  when no strategy of \<open>extractRawText\<close> yields a text the result is the string coercion
  of the response, which for a response that is a function is its source text, not the empty
  string.  What holds, for \<open>extractRawText\<close> of the Gemini service: an accessor that
  returns a text that is not empty wins; an accessor that throws is swallowed and the
  \<open>outputText\<close> field, the scan of \<open>outputs\<close>, the serialization and the string
  coercion follow in this order; a \<open>text\<close> field that is a string and not empty comes
  before all of these; the function raises only when all five strategies yield nothing and
  the final \<open>String(response ?? "")\<close> throws, so never when that coercion is total; an
  \<open>undefined\<close> response, whose serialization is \<open>undefined\<close>, gives the empty
  string; and a \<open>null\<close> response gives its serialization, the text \<open>null\<close>.
  For the inline extraction of decisionSherlock: a truthy \<open>value\<close> comes first,
  a throwing accessor gives the extraction error, and no other error leaves the block.
\<close>

theorem text_extraction:
  "(\<forall>t. truthy_r response \<and> prop_r response (js ''text'') = RFun (Some t) \<and> nonempty_string t \<longrightarrow>
        extractRawText rt response = Inr t) \<and>
   (prop_r response (js ''text'') = RFun None \<longrightarrow>
        extractRawText rt response =
          (case outputText_field response of Some t \<Rightarrow> Inr t | None \<Rightarrow>
          (case outputs_scan rt response of Some t \<Rightarrow> Inr t | None \<Rightarrow>
          (case serialization rt response of Some t \<Rightarrow> Inr t | None \<Rightarrow>
           last_resort rt response)))) \<and>
   (truthy_r response \<and> nonempty_string (prop_r response (js ''text'')) \<longrightarrow>
        extractRawText rt response = Inr (prop_r response (js ''text''))) \<and>
   (text_accessor response = None \<and> text_field response = None \<and> truthy_r response \<and>
    nonempty_string (prop_r response (js ''outputText'')) \<longrightarrow>
        extractRawText rt response = Inr (prop_r response (js ''outputText''))) \<and>
   (\<forall>t. text_accessor response = None \<and> text_field response = None \<and>
        outputText_field response = None \<and> outputs_scan rt response = Some t \<longrightarrow>
        extractRawText rt response = Inr t) \<and>
   (\<forall>s. text_accessor response = None \<and> text_field response = None \<and>
        outputText_field response = None \<and> outputs_scan rt response = None \<and>
        JSON_stringify rt response = Stringified s \<and> s \<noteq> [] \<longrightarrow>
        extractRawText rt response = Inr (RStr s)) \<and>
   ((\<exists>e. extractRawText rt response = Inl e) \<longleftrightarrow>
        text_accessor response = None \<and> text_field response = None \<and>
        outputText_field response = None \<and> outputs_scan rt response = None \<and>
        serialization rt response = None \<and>
        String_r rt (if nullish_r response then RStr [] else response) = None) \<and>
   ((\<forall>v. String_of rt v \<noteq> None) \<longrightarrow> (\<exists>v. extractRawText rt response = Inr v)) \<and>
   (response = RUndefined \<and> JSON_stringify rt response = StringifyUndefined \<longrightarrow>
        extractRawText rt response = Inr (RStr [])) \<and>
   (\<forall>s. response = RNull \<and> JSON_stringify rt response = Stringified s \<and> s \<noteq> [] \<longrightarrow>
        extractRawText rt response = Inr (RStr s)) \<and>
   (\<not> nullish_r response \<and> truthy_r (prop_r response (js ''value'')) \<longrightarrow>
        inline_extract rt response = stringify_value rt (prop_r response (js ''value''))) \<and>
   (\<not> nullish_r response \<and> \<not> truthy_r (prop_r response (js ''value'')) \<and>
    prop_r response (js ''text'') = RFun None \<longrightarrow>
        inline_extract rt response = Inl ExtractFailed) \<and>
   (\<forall>e. inline_extract rt response = Inl e \<longrightarrow> e = ExtractFailed)"
proof -
  have a1: "\<forall>t. truthy_r response \<and> prop_r response (js ''text'') = RFun (Some t) \<and>
              nonempty_string t \<longrightarrow> extractRawText rt response = Inr t"
    using text_accessor_returns [of response _ rt] by blast
  have a2: "prop_r response (js ''text'') = RFun None \<longrightarrow>
        extractRawText rt response =
          (case outputText_field response of Some t \<Rightarrow> Inr t | None \<Rightarrow>
          (case outputs_scan rt response of Some t \<Rightarrow> Inr t | None \<Rightarrow>
          (case serialization rt response of Some t \<Rightarrow> Inr t | None \<Rightarrow>
           last_resort rt response)))"
    using text_accessor_throws [of response] by (simp add: extractRawText_def)
  have a3: "truthy_r response \<and> nonempty_string (prop_r response (js ''text'')) \<longrightarrow>
        extractRawText rt response = Inr (prop_r response (js ''text''))"
    using text_field_wins [of response rt] by blast
  have a4: "text_accessor response = None \<and> text_field response = None \<and> truthy_r response \<and>
    nonempty_string (prop_r response (js ''outputText'')) \<longrightarrow>
        extractRawText rt response = Inr (prop_r response (js ''outputText''))"
    by (simp add: extractRawText_def outputText_field_def)
  have a5: "\<forall>t. text_accessor response = None \<and> text_field response = None \<and>
        outputText_field response = None \<and> outputs_scan rt response = Some t \<longrightarrow>
        extractRawText rt response = Inr t"
    by (simp add: extractRawText_def)
  have a6: "\<forall>s. text_accessor response = None \<and> text_field response = None \<and>
        outputText_field response = None \<and> outputs_scan rt response = None \<and>
        JSON_stringify rt response = Stringified s \<and> s \<noteq> [] \<longrightarrow>
        extractRawText rt response = Inr (RStr s)"
    by (simp add: extractRawText_def serialization_def)
  note a7 = extractRawText_raises [of rt response]
  have a8: "(\<forall>v. String_of rt v \<noteq> None) \<longrightarrow> (\<exists>v. extractRawText rt response = Inr v)"
  proof
    assume total: "\<forall>v. String_of rt v \<noteq> None"
    have "String_r rt v \<noteq> None" for v
      using total by (cases v) (simp_all add: String_r_def)
    with a7 have "\<not> (\<exists>e. extractRawText rt response = Inl e)" by simp
    then show "\<exists>v. extractRawText rt response = Inr v"
      by (cases "extractRawText rt response") auto
  qed
  have a9: "response = RUndefined \<and> JSON_stringify rt response = StringifyUndefined \<longrightarrow>
        extractRawText rt response = Inr (RStr [])"
  proof
    assume u: "response = RUndefined \<and> JSON_stringify rt response = StringifyUndefined"
    then have "nullish_r response" "serialization rt response = None"
      by (auto simp: serialization_def)
    then show "extractRawText rt response = Inr (RStr [])"
      by (rule extractRawText_nullish)
  qed
  have a9': "\<forall>s. response = RNull \<and> JSON_stringify rt response = Stringified s \<and> s \<noteq> [] \<longrightarrow>
        extractRawText rt response = Inr (RStr s)"
  proof (intro allI impI)
    fix s
    assume n: "response = RNull \<and> JSON_stringify rt response = Stringified s \<and> s \<noteq> []"
    then have "nullish_r response" by simp
    from nullish_strategies [OF this, of rt] n
    show "extractRawText rt response = Inr (RStr s)"
      by (auto simp: extractRawText_def serialization_def)
  qed
  have a10: "\<not> nullish_r response \<and> truthy_r (prop_r response (js ''value'')) \<longrightarrow>
        inline_extract rt response = stringify_value rt (prop_r response (js ''value''))"
    using inline_value_first [of response rt] by blast
  have a11: "\<not> nullish_r response \<and> \<not> truthy_r (prop_r response (js ''value'')) \<and>
    prop_r response (js ''text'') = RFun None \<longrightarrow>
        inline_extract rt response = Inl ExtractFailed"
    using inline_accessor_throws [of response rt] by blast
  have a12: "\<forall>e. inline_extract rt response = Inl e \<longrightarrow> e = ExtractFailed"
    using inline_extract_error [of rt response] by blast
  show ?thesis
    by (intro conjI) (rule a1 a2 a3 a4 a5 a6 a7 a8 a9 a9' a10 a11 a12)+
qed

theorem text_extraction_witness:
  "truthy_r accessor_response \<and>
   prop_r accessor_response (js ''text'') = RFun (Some (RStr (js ''abc''))) \<and>
   extractRawText example_runtime accessor_response = Inr (RStr (js ''abc'')) \<and>
   prop_r throwing_response (js ''text'') = RFun None \<and>
   extractRawText example_runtime throwing_response = Inr (RStr (js ''hi'')) \<and>
   outputs_scan example_runtime outputs_response = Some (RStr (js ''deep'')) \<and>
   extractRawText example_runtime outputs_response = Inr (RStr (js ''deep'')) \<and>
   JSON_stringify example_runtime RUndefined = StringifyUndefined \<and>
   extractRawText example_runtime RUndefined = Inr (RStr []) \<and>
   JSON_stringify example_runtime RNull = Stringified (js ''null'') \<and> js ''null'' \<noteq> [] \<and>
   extractRawText example_runtime RNull = Inr (RStr (js ''null'')) \<and>
   \<not> nullish_r throwing_response \<and>
   \<not> truthy_r (prop_r throwing_response (js ''value'')) \<and>
   inline_extract example_runtime throwing_response = Inl ExtractFailed"
proof -
  note ta = text_extraction [where response = accessor_response and rt = example_runtime]
  note tt = text_extraction [where response = throwing_response and rt = example_runtime]
  note to = text_extraction [where response = outputs_response and rt = example_runtime]
  note tu = text_extraction [where response = RUndefined and rt = example_runtime]
  note tn = text_extraction [where response = RNull and rt = example_runtime]
  note h1 = accessor_response_props(1)
  note h2 = accessor_response_props(2)
  have c1: "extractRawText example_runtime accessor_response = Inr (RStr (js ''abc''))"
    by (rule ta [THEN conjunct1, rule_format, OF conjI [OF h1 conjI [OF h2 accessor_response_props(3)]]])
  note h3 = throwing_response_props(3)
  have c2: "extractRawText example_runtime throwing_response = Inr (RStr (js ''hi''))"
    using tt [THEN conjunct2, THEN conjunct1, rule_format, OF h3]
    unfolding throwing_response_outputText by simp
  note h4 = outputs_response_scan(4) [of example_runtime]
  have c3: "extractRawText example_runtime outputs_response = Inr (RStr (js ''deep''))"
    by (rule to [THEN conjunct2, THEN conjunct2, THEN conjunct2, THEN conjunct2, THEN conjunct1, rule_format,
          OF conjI [OF outputs_response_scan(1) conjI [OF outputs_response_scan(2)
            conjI [OF outputs_response_scan(3) h4]]]])
  note h5 = undefined_stringify
  have c4: "extractRawText example_runtime RUndefined = Inr (RStr [])"
    by (rule tu [THEN conjunct2, THEN conjunct2, THEN conjunct2, THEN conjunct2, THEN conjunct2, THEN conjunct2, THEN conjunct2, THEN conjunct2, THEN conjunct1, rule_format, OF conjI [OF refl h5]])
  note h6 = null_stringify
  have h6': "js ''null'' \<noteq> []" by simp
  have c4': "extractRawText example_runtime RNull = Inr (RStr (js ''null''))"
    by (rule tn [THEN conjunct2, THEN conjunct2, THEN conjunct2, THEN conjunct2, THEN conjunct2, THEN conjunct2, THEN conjunct2, THEN conjunct2, THEN conjunct2, THEN conjunct1, rule_format,
          OF conjI [OF refl conjI [OF h6 h6']]])
  note h7 = throwing_response_props(2)
  note h8 = throwing_response_props(4)
  have c5: "inline_extract example_runtime throwing_response = Inl ExtractFailed"
    by (rule tt [THEN conjunct2, THEN conjunct2, THEN conjunct2, THEN conjunct2, THEN conjunct2, THEN conjunct2, THEN conjunct2, THEN conjunct2, THEN conjunct2, THEN conjunct2, THEN conjunct2, THEN conjunct1, rule_format, OF conjI [OF h7 conjI [OF h8 h3]]])
  show ?thesis
    by (intro conjI) (rule h1 h2 c1 h3 c2 h4 c3 h5 c4 h6 h6' c4' h7 h8 c5)+
qed

theorem text_extraction_counterexample:
  \<open>inline_extract example_runtime throwing_response = Inl ExtractFailed \<and>
   post_process example_runtime throwing_response = Inl ExtractFailed \<and>
   extractRawText example_runtime callable_response = Inr (RStr (js ''() => "hi"''))\<close>
proof -
  have "inline_extract example_runtime throwing_response = Inl ExtractFailed"
    by (simp add: inline_extract_def throwing_response_def)
  moreover from this
  have "post_process example_runtime throwing_response = Inl ExtractFailed"
    by (simp add: post_process_def)
  ultimately show ?thesis using callable_response_extract by simp
qed

end
